theory Spec2Isabelle
  imports Complex_Main "HOL-Library.Product_Lexorder"
begin

section \<open>Floating-point cells\<close>

text \<open>
  A cell of a pandas frame is a float64. The model keeps the three kinds of value that
  pandas and numpy tell apart: a finite number, an infinity with its sign (\<open>Infty True\<close>
  is \<open>+inf\<close>) and \<open>NaN\<close>, which pandas reads as "missing". Arithmetic on finite
  values is exact real arithmetic: rounding, overflow and signed zeros are not modelled
  (a division by zero takes the zero as \<open>+0\<close>).
\<close>

datatype fl = Fin real | Infty bool | NaN

instantiation fl :: "{plus, minus, uminus, times, inverse}"
begin

fun plus_fl :: "fl \<Rightarrow> fl \<Rightarrow> fl" where
  "plus_fl NaN y = NaN"
| "plus_fl (Fin a) NaN = NaN"
| "plus_fl (Infty s) NaN = NaN"
| "plus_fl (Fin a) (Fin b) = Fin (a + b)"
| "plus_fl (Fin a) (Infty t) = Infty t"
| "plus_fl (Infty s) (Fin b) = Infty s"
| "plus_fl (Infty s) (Infty t) = (if s = t then Infty s else NaN)"

fun uminus_fl :: "fl \<Rightarrow> fl" where
  "uminus_fl NaN = NaN"
| "uminus_fl (Fin a) = Fin (- a)"
| "uminus_fl (Infty s) = Infty (\<not> s)"

definition minus_fl :: "fl \<Rightarrow> fl \<Rightarrow> fl" where
  "minus_fl x y = x + (- y)"

fun times_fl :: "fl \<Rightarrow> fl \<Rightarrow> fl" where
  "times_fl NaN y = NaN"
| "times_fl (Fin a) NaN = NaN"
| "times_fl (Infty s) NaN = NaN"
| "times_fl (Fin a) (Fin b) = Fin (a * b)"
| "times_fl (Fin a) (Infty t) = (if a = 0 then NaN else Infty (t = (0 < a)))"
| "times_fl (Infty s) (Fin b) = (if b = 0 then NaN else Infty (s = (0 < b)))"
| "times_fl (Infty s) (Infty t) = Infty (s = t)"

fun divide_fl :: "fl \<Rightarrow> fl \<Rightarrow> fl" where
  "divide_fl NaN y = NaN"
| "divide_fl (Fin a) NaN = NaN"
| "divide_fl (Infty s) NaN = NaN"
| "divide_fl (Fin a) (Fin b) =
     (if b = 0 then (if a = 0 then NaN else Infty (0 < a)) else Fin (a / b))"
| "divide_fl (Fin a) (Infty t) = Fin 0"
| "divide_fl (Infty s) (Fin b) = Infty (s = (0 \<le> b))"
| "divide_fl (Infty s) (Infty t) = NaN"

definition inverse_fl :: "fl \<Rightarrow> fl" where
  "inverse_fl x = Fin 1 div x"

instance ..

end

text \<open>\<open>isnull\<close> / \<open>notnull\<close>: only NaN is missing, an infinity is a value.\<close>

definition isnull :: "fl \<Rightarrow> bool" where
  "isnull x = (x = NaN)"

text \<open>The order numpy sorts non-missing floats by.\<close>

fun fl_less :: "fl \<Rightarrow> fl \<Rightarrow> bool" where
  "fl_less (Fin a) (Fin b) = (a < b)"
| "fl_less (Fin a) (Infty t) = t"
| "fl_less (Infty s) (Fin b) = (\<not> s)"
| "fl_less (Infty s) (Infty t) = (\<not> s \<and> t)"
| "fl_less NaN y = False"
| "fl_less x NaN = False"

section \<open>Dates\<close>

text \<open>
  A timestamp of the daily price index, timezone-naive (line 70), as (year, month, day)
  under the lexicographic order.
\<close>

type_synonym date = "nat \<times> nat \<times> nat"

definition is_leap :: "nat \<Rightarrow> bool" where
  "is_leap y = (y mod 4 = 0 \<and> (0 < y mod 100 \<or> y mod 400 = 0))"

definition days_in_month :: "nat \<Rightarrow> nat \<Rightarrow> nat" where
  "days_in_month y m =
     (if m = 2 then (if is_leap y then 29 else 28)
      else if m = 4 \<or> m = 6 \<or> m = 9 \<or> m = 11 then 30 else 31)"

text \<open>Months are counted from year 0: month \<open>k\<close> is month \<open>k mod 12 + 1\<close> of year \<open>k div 12\<close>.\<close>

definition month_ord :: "date \<Rightarrow> nat" where
  "month_ord d = (case d of (y, m, _) \<Rightarrow> 12 * y + (m - 1))"

definition month_end_of :: "nat \<Rightarrow> date" where
  "month_end_of k = (k div 12, k mod 12 + 1, days_in_month (k div 12) (k mod 12 + 1))"

text \<open>
  \<open>date - pd.offsets.MonthBegin(1)\<close>: the latest first-of-month strictly before the date
  (the first of the date's own month, unless the date is itself a first of month).
\<close>

definition month_begin_before :: "date \<Rightarrow> date" where
  "month_begin_before d =
     (case d of (y, m, dd) \<Rightarrow>
        if 1 < dd then (y, m, 1)
        else if 1 < m then (y, m - 1, 1)
        else (y - 1, 12, 1))"

section \<open>Data frames\<close>

text \<open>
  A DataFrame with a date index: the column labels in order, and the rows in index order,
  each row giving the cell of every column. A Series over the columns is a list of
  (label, value) pairs; a Series over dates a list of (date, value) pairs.
\<close>

type_synonym asset = string

record frame =
  columns :: "asset list"
  rows :: "(date \<times> (asset \<Rightarrow> fl)) list"

definition index :: "frame \<Rightarrow> date list" where
  "index fr = map fst (rows fr)"

definition column :: "frame \<Rightarrow> asset \<Rightarrow> fl list" where
  "column fr a = map (\<lambda>r. snd r a) (rows fr)"

text \<open>\<open>fillna(method='ffill')\<close> (line 67, and the default padding of \<open>pct_change\<close>).\<close>

fun ffill_rows :: "(asset \<Rightarrow> fl) \<Rightarrow> (date \<times> (asset \<Rightarrow> fl)) list \<Rightarrow> (date \<times> (asset \<Rightarrow> fl)) list" where
  "ffill_rows prev [] = []"
| "ffill_rows prev (r # rs) =
     (let g = (\<lambda>a. if isnull (snd r a) then prev a else snd r a)
      in (fst r, g) # ffill_rows g rs)"

definition ffill :: "frame \<Rightarrow> frame" where
  "ffill fr = fr\<lparr>rows := ffill_rows (\<lambda>a. NaN) (rows fr)\<rparr>"

text \<open>\<open>DataFrame.dropna()\<close>: keep the rows with no missing cell.\<close>

definition dropna :: "frame \<Rightarrow> frame" where
  "dropna fr = fr\<lparr>rows := filter (\<lambda>r. list_all (\<lambda>a. \<not> isnull (snd r a)) (columns fr)) (rows fr)\<rparr>"

text \<open>\<open>DataFrame.empty\<close>: some axis has length 0.\<close>

definition empty_frame :: "frame \<Rightarrow> bool" where
  "empty_frame fr = (rows fr = [] \<or> columns fr = [])"

text \<open>\<open>date in fr.index\<close> and \<open>fr.loc[date]\<close> (the index has no duplicates).\<close>

definition loc :: "frame \<Rightarrow> date \<Rightarrow> (date \<times> (asset \<Rightarrow> fl)) option" where
  "loc fr d = find (\<lambda>r. fst r = d) (rows fr)"

definition row_series :: "frame \<Rightarrow> (date \<times> (asset \<Rightarrow> fl)) \<Rightarrow> (asset \<times> fl) list" where
  "row_series fr r = map (\<lambda>a. (a, snd r a)) (columns fr)"

definition dropna_series :: "('k \<times> fl) list \<Rightarrow> ('k \<times> fl) list" where
  "dropna_series s = filter (\<lambda>p. \<not> isnull (snd p)) s"

text \<open>
  \<open>Series.nlargest(n)\<close>: the \<open>n\<close> largest values in descending order, equal values in
  their original order (\<open>keep='first'\<close>).
\<close>

fun insert_desc :: "('k \<times> fl) \<Rightarrow> ('k \<times> fl) list \<Rightarrow> ('k \<times> fl) list" where
  "insert_desc p [] = [p]"
| "insert_desc p (q # qs) =
     (if fl_less (snd p) (snd q) then q # insert_desc p qs else p # q # qs)"

definition sort_desc :: "('k \<times> fl) list \<Rightarrow> ('k \<times> fl) list" where
  "sort_desc s = foldr insert_desc s []"

definition nlargest :: "nat \<Rightarrow> ('k \<times> fl) list \<Rightarrow> ('k \<times> fl) list" where
  "nlargest n s = take n (sort_desc s)"

text \<open>\<open>fr.loc[a:b]\<close> on an ascending index: both ends included.\<close>

definition loc_slice :: "frame \<Rightarrow> date \<Rightarrow> date \<Rightarrow> frame" where
  "loc_slice fr a b = fr\<lparr>rows := filter (\<lambda>r. a \<le> fst r \<and> fst r \<le> b) (rows fr)\<rparr>"

text \<open>\<open>fr[labels]\<close>: the listed columns, in the order listed.\<close>

definition select_columns :: "frame \<Rightarrow> asset list \<Rightarrow> frame" where
  "select_columns fr cs = fr\<lparr>columns := cs\<rparr>"

text \<open>
  \<open>pct_change()\<close>: pad, then \<open>x / x.shift(1) - 1\<close>; the first row is over a missing
  predecessor.
\<close>

fun pct_rows :: "(asset \<Rightarrow> fl) \<Rightarrow> (date \<times> (asset \<Rightarrow> fl)) list \<Rightarrow> (date \<times> (asset \<Rightarrow> fl)) list" where
  "pct_rows prev [] = []"
| "pct_rows prev (r # rs) = (fst r, \<lambda>a. snd r a / prev a - Fin 1) # pct_rows (snd r) rs"

definition pct_change :: "frame \<Rightarrow> frame" where
  "pct_change fr = fr\<lparr>rows := pct_rows (\<lambda>a. NaN) (rows (ffill fr))\<rparr>"

text \<open>\<open>mean\<close> and \<open>prod\<close> skip missing values; the mean of nothing is missing, the product of nothing is 1.\<close>

definition fl_sum :: "fl list \<Rightarrow> fl" where
  "fl_sum xs = foldl (+) (Fin 0) xs"

definition fl_mean :: "fl list \<Rightarrow> fl" where
  "fl_mean xs =
     (let ys = filter (\<lambda>x. \<not> isnull x) xs
      in if ys = [] then NaN else fl_sum ys / Fin (real (length ys)))"

definition fl_prod :: "fl list \<Rightarrow> fl" where
  "fl_prod xs = foldl (*) (Fin 1) (filter (\<lambda>x. \<not> isnull x) xs)"

definition mean_axis1 :: "frame \<Rightarrow> (date \<times> fl) list" where
  "mean_axis1 fr = map (\<lambda>r. (fst r, fl_mean (map (snd r) (columns fr)))) (rows fr)"

section \<open>Momentum (lines 73-85)\<close>

definition calculate_momentum :: "fl list \<Rightarrow> fl" where
  "calculate_momentum prices =
     (if length prices < 252 then NaN
      else
        let p0 = prices ! (length prices - 1);
            p1 = prices ! (length prices - 21);
            p3 = prices ! (length prices - 63);
            p6 = prices ! (length prices - 126);
            p12 = prices ! (length prices - 252)
        in (Fin 12 * (p0 / p1 - Fin 1)) + (Fin 4 * (p0 / p3 - Fin 1))
           + (Fin 2 * (p0 / p6 - Fin 1)) + (p0 / p12 - Fin 1))"

text \<open>
  \<open>rolling(window=w).apply(f)\<close> at row \<open>i\<close>: the window is the last \<open>w\<close> rows up to and
  including row \<open>i\<close> (fewer near the start); infinities count as missing; \<open>f\<close> is called
  only when the window holds at least \<open>w\<close> values that are not missing (\<open>min_periods\<close>
  defaults to the window size), otherwise the result is missing.
\<close>

definition prep_value :: "fl \<Rightarrow> fl" where
  "prep_value x = (case x of Infty s \<Rightarrow> NaN | _ \<Rightarrow> x)"

definition window_at :: "nat \<Rightarrow> fl list \<Rightarrow> nat \<Rightarrow> fl list" where
  "window_at w xs i = map prep_value (drop (Suc i - w) (take (Suc i) xs))"

definition rolling_apply_at :: "nat \<Rightarrow> (fl list \<Rightarrow> fl) \<Rightarrow> fl list \<Rightarrow> nat \<Rightarrow> fl" where
  "rolling_apply_at w f xs i =
     (let win = window_at w xs i
      in if length (filter (\<lambda>x. \<not> isnull x) win) < w then NaN else f win)"

definition momentum :: "frame \<Rightarrow> frame" where
  "momentum fr =
     fr\<lparr>rows := map (\<lambda>i. (fst (rows fr ! i),
                          \<lambda>a. rolling_apply_at 252 calculate_momentum (column fr a) i))
                  [0..<length (rows fr)]\<rparr>"

section \<open>Rebalancing dates (lines 98-104)\<close>

text \<open>
  \<open>data.resample('M').last().index\<close>: one label per calendar month from the month of the
  first row to the month of the last row, each label the calendar month-end.
\<close>

definition month_ends :: "frame \<Rightarrow> date list" where
  "month_ends fr =
     (case rows fr of
        [] \<Rightarrow> []
      | r # rs \<Rightarrow> map month_end_of [month_ord (fst r) ..< Suc (month_ord (fst (last (r # rs))))])"

definition momentum_start_date :: "frame \<Rightarrow> date option" where
  "momentum_start_date mom =
     (if \<not> empty_frame (dropna mom) then Some (fst (hd (rows (dropna mom)))) else None)"

definition rebalancing_dates :: "frame \<Rightarrow> frame \<Rightarrow> date list" where
  "rebalancing_dates data mom =
     (case momentum_start_date mom of
        None \<Rightarrow> month_ends data
      | Some s \<Rightarrow> filter (\<lambda>d. s < d) (month_ends data))"

section \<open>Backtest (lines 92-96 and 110-132)\<close>

record state =
  portfolio_value :: fl
  portfolio_values :: "fl list"
  portfolio_dates :: "date list"
  current_portfolio :: "asset list option"

definition init_state :: "real \<Rightarrow> state" where
  "init_state initial_capital =
     \<lparr>portfolio_value = Fin initial_capital,
      portfolio_values = [Fin initial_capital],
      portfolio_dates = [],
      current_portfolio = None\<rparr>"

definition top_assets_of :: "frame \<Rightarrow> nat \<Rightarrow> (date \<times> (asset \<Rightarrow> fl)) \<Rightarrow> asset list" where
  "top_assets_of mom top_n r = map fst (nlargest top_n (dropna_series (row_series mom r)))"

definition monthly_returns :: "frame \<Rightarrow> asset list \<Rightarrow> date \<Rightarrow> (date \<times> fl) list" where
  "monthly_returns data top_assets d =
     (let month_data = select_columns (loc_slice data (month_begin_before d) d) top_assets
      in mean_axis1 (dropna (pct_change month_data)))"

definition cumulative_return :: "(date \<times> fl) list \<Rightarrow> fl" where
  "cumulative_return mr = fl_prod (map (\<lambda>p. Fin 1 + snd p) mr) - Fin 1"

text \<open>One pass of the loop body; every \<open>continue\<close> returns the state as it was.\<close>

definition rebalance :: "frame \<Rightarrow> frame \<Rightarrow> nat \<Rightarrow> state \<Rightarrow> date \<Rightarrow> state" where
  "rebalance data mom top_n st d =
     (case loc mom d of
        None \<Rightarrow> st
      | Some r \<Rightarrow>
          if list_all (\<lambda>p. isnull (snd p)) (row_series mom r) then st
          else
            let top_assets = top_assets_of mom top_n r
            in if length top_assets < top_n then st
               else
                 let mr = monthly_returns data top_assets d
                 in if mr = [] then st
                    else
                      let pv = portfolio_value st * (Fin 1 + cumulative_return mr)
                      in st\<lparr>portfolio_value := pv,
                            portfolio_values := portfolio_values st @ [pv],
                            portfolio_dates := portfolio_dates st @ [d],
                            current_portfolio := Some top_assets\<rparr>)"

definition backtest :: "frame \<Rightarrow> frame \<Rightarrow> nat \<Rightarrow> real \<Rightarrow> date list \<Rightarrow> state" where
  "backtest data mom top_n initial_capital dates =
     foldl (rebalance data mom top_n) (init_state initial_capital) dates"

text \<open>
  Line 90: \<open>momentum.dropna().iloc[0].sort_values(ascending=False)\<close>, the first row on
  which every asset has a score, in descending order. \<open>iloc[0]\<close> raises IndexError when
  \<open>dropna\<close> leaves no row; unlike line 102, the statement has no guard.
\<close>

datatype error = IndexError

definition initial_momentum_values :: "frame \<Rightarrow> error + (asset \<times> fl) list" where
  "initial_momentum_values mom =
     (case rows (dropna mom) of
        [] \<Rightarrow> Inl IndexError
      | r # rs \<Rightarrow> Inr (sort_desc (row_series mom r)))"

text \<open>
  Lines 67-132 as the script runs them, with the button pressed: an exception at line 90
  ends the script before the portfolio is initialised.
\<close>

definition run :: "frame \<Rightarrow> nat \<Rightarrow> real \<Rightarrow> error + state" where
  "run raw top_n initial_capital =
     (let data = ffill raw;
          mom = momentum data
      in case initial_momentum_values mom of
           Inl e \<Rightarrow> Inl e
         | Inr shown \<Rightarrow>
             Inr (backtest data mom top_n initial_capital (rebalancing_dates data mom)))"

text \<open>The history plotted at line 138: the dates against the values after the initial one.\<close>

definition history :: "state \<Rightarrow> (date \<times> fl) list" where
  "history st = zip (portfolio_dates st) (tl (portfolio_values st))"

section \<open>Report (line 150)\<close>

definition portfolio_mtd_return :: "fl list \<Rightarrow> fl" where
  "portfolio_mtd_return pvs =
     (if 1 < length pvs
      then (pvs ! (length pvs - 1) / pvs ! (length pvs - 2) - Fin 1) * Fin 100
      else Fin 0)"

section \<open>Notions the properties are stated with\<close>

text \<open>The number of assets with a momentum score at a date (none when the date has no row).\<close>

definition n_defined :: "frame \<Rightarrow> date \<Rightarrow> nat" where
  "n_defined mom d =
     (case loc mom d of None \<Rightarrow> 0 | Some r \<Rightarrow> length (dropna_series (row_series mom r)))"

text \<open>The valid return days of the holding window of a date, for the assets selected there.\<close>

definition valid_return_days :: "frame \<Rightarrow> frame \<Rightarrow> nat \<Rightarrow> date \<Rightarrow> (date \<times> fl) list" where
  "valid_return_days data mom top_n d =
     (case loc mom d of None \<Rightarrow> [] | Some r \<Rightarrow> monthly_returns data (top_assets_of mom top_n r) d)"

text \<open>
  The period return of a date: the \<open>cumulative_return\<close> the loop body computes there, and
  nothing on each of its \<open>continue\<close> paths.
\<close>

definition period_return :: "frame \<Rightarrow> frame \<Rightarrow> nat \<Rightarrow> date \<Rightarrow> fl option" where
  "period_return data mom top_n d =
     (case loc mom d of
        None \<Rightarrow> None
      | Some r \<Rightarrow>
          if list_all (\<lambda>p. isnull (snd p)) (row_series mom r) then None
          else if length (top_assets_of mom top_n r) < top_n then None
          else if monthly_returns data (top_assets_of mom top_n r) d = [] then None
          else Some (cumulative_return (monthly_returns data (top_assets_of mom top_n r) d)))"

fun period_returns :: "frame \<Rightarrow> frame \<Rightarrow> nat \<Rightarrow> date list \<Rightarrow> fl list" where
  "period_returns data mom top_n [] = []"
| "period_returns data mom top_n (d # ds) =
     (case period_return data mom top_n d of
        None \<Rightarrow> period_returns data mom top_n ds
      | Some r \<Rightarrow> r # period_returns data mom top_n ds)"

text \<open>Replaying period returns from a starting value: the values after each period.\<close>

fun compound :: "fl \<Rightarrow> fl list \<Rightarrow> fl list" where
  "compound v [] = []"
| "compound v (r # rs) = (v * (Fin 1 + r)) # compound (v * (Fin 1 + r)) rs"

section \<open>Example tables\<close>

text \<open>
  A small price table and a momentum table over the same dates, to run single
  transitions of the simulator on.
\<close>

definition ex_data :: frame where
  "ex_data = \<lparr>columns = [''A'', ''B''],
     rows = [((2017, 3, 30), (\<lambda>a. NaN)(''A'' := Fin 100, ''B'' := Fin 50)),
             ((2017, 3, 31), (\<lambda>a. NaN)(''A'' := Fin 110, ''B'' := Fin 50)),
             ((2017, 4, 27), (\<lambda>a. NaN)(''A'' := Fin 110, ''B'' := Fin 50)),
             ((2017, 4, 28), (\<lambda>a. NaN)(''A'' := Fin 121, ''B'' := Fin 40)),
             ((2017, 5, 31), (\<lambda>a. NaN)(''A'' := Fin 121, ''B'' := Fin 40))]\<rparr>"

definition ex_mom :: frame where
  "ex_mom = \<lparr>columns = [''A'', ''B''],
     rows = [((2017, 3, 30), (\<lambda>a. NaN)),
             ((2017, 3, 31), (\<lambda>a. NaN)(''A'' := Fin 2)),
             ((2017, 4, 27), (\<lambda>a. NaN)(''A'' := Fin 2)),
             ((2017, 4, 28), (\<lambda>a. NaN)(''A'' := Fin 3, ''B'' := Fin 1)),
             ((2017, 5, 31), (\<lambda>a. NaN)(''A'' := Fin 1))]\<rparr>"

section \<open>Further notions and tables\<close>

text \<open>A positive finite value.\<close>

definition pos_fl :: "fl \<Rightarrow> bool" where
  "pos_fl x = (case x of Fin v \<Rightarrow> 0 < v | _ \<Rightarrow> False)"

text \<open>Every price of the table is positive where it is not missing.\<close>

definition positive_prices :: "frame \<Rightarrow> bool" where
  "positive_prices fr =
     list_all (\<lambda>r. list_all (\<lambda>a. isnull (snd r a) \<or> pos_fl (snd r a)) (columns fr)) (rows fr)"

text \<open>A finite value above -1 (a simple return of a positive price over a positive price).\<close>

definition gt_m1 :: "fl \<Rightarrow> bool" where
  "gt_m1 x = (case x of Fin v \<Rightarrow> - 1 < v | _ \<Rightarrow> False)"

text \<open>No column has a score on any row.\<close>

definition all_undefined :: "frame \<Rightarrow> bool" where
  "all_undefined mom = list_all (\<lambda>r. list_all (\<lambda>a. isnull (snd r a)) (columns mom)) (rows mom)"

text \<open>A row that \<open>dropna\<close> keeps: every column has a value.\<close>

definition fully_defined :: "frame \<Rightarrow> (date \<times> (asset \<Rightarrow> fl)) \<Rightarrow> bool" where
  "fully_defined mom r = list_all (\<lambda>a. \<not> isnull (snd r a)) (columns mom)"

text \<open>The number of observations of a column up to and including row \<open>i\<close>: the cells that are not missing.\<close>

definition obs_count :: "fl list \<Rightarrow> nat \<Rightarrow> nat" where
  "obs_count xs i = length (filter (\<lambda>x. \<not> isnull x) (take (Suc i) xs))"

text \<open>A finite number: neither missing nor an infinity.\<close>

definition is_finite :: "fl \<Rightarrow> bool" where
  "is_finite x = (case x of Fin v \<Rightarrow> True | _ \<Rightarrow> False)"

text \<open>Missing or finite.\<close>

definition not_infinite :: "fl \<Rightarrow> bool" where
  "not_infinite x = (case x of Infty s \<Rightarrow> False | _ \<Rightarrow> True)"

text \<open>The 13612W blend of the four return ratios, as the application's explanation text and line 81 write it.\<close>

definition weighted_score :: "fl \<Rightarrow> fl \<Rightarrow> fl \<Rightarrow> fl \<Rightarrow> fl \<Rightarrow> fl" where
  "weighted_score p0 p1 p3 p6 p12 =
     (Fin 12 * (p0 / p1 - Fin 1)) + (Fin 4 * (p0 / p3 - Fin 1))
       + (Fin 2 * (p0 / p6 - Fin 1)) + (p0 / p12 - Fin 1)"

text \<open>Forward fill of one column.\<close>

fun ffill_list :: "fl \<Rightarrow> fl list \<Rightarrow> fl list" where
  "ffill_list prev [] = []"
| "ffill_list prev (x # xs) =
     (let y = (if isnull x then prev else x) in y # ffill_list y xs)"

text \<open>A price table of 255 rows for one asset: 28 rows in each month from June 2016 to
  February 2017 (row 251 is 2017-02-28), then 2017-03-30, 2017-03-31 and 2017-04-03. The
  price is 50 on the first two rows, 100 up to row 252 and 110 from row 253 on.\<close>

definition demo_date :: "nat \<Rightarrow> date" where
  "demo_date k =
     (if k < 196 then (2016, 6 + k div 28, 1 + k mod 28)
      else if k < 252 then (2017, 1 + (k - 196) div 28, 1 + k mod 28)
      else if k = 252 then (2017, 3, 30)
      else if k = 253 then (2017, 3, 31)
      else (2017, 4, 3))"

definition demo_price :: "nat \<Rightarrow> real" where
  "demo_price k = (if k < 2 then 50 else if k < 253 then 100 else 110)"

definition demo_row :: "nat \<Rightarrow> date \<times> (asset \<Rightarrow> fl)" where
  "demo_row k = (demo_date k, (\<lambda>a. NaN)(''A'' := Fin (demo_price k)))"

definition demo :: frame where
  "demo = \<lparr>columns = [''A''], rows = map demo_row [0..<255]\<rparr>"

text \<open>Two tables that are the same DataFrame: the same columns, the same index and the same
  cell in every row and column (the row functions may differ outside the columns).\<close>

definition same_rows :: "asset list \<Rightarrow> (date \<times> (asset \<Rightarrow> fl)) list \<Rightarrow> (date \<times> (asset \<Rightarrow> fl)) list \<Rightarrow> bool" where
  "same_rows cs rs rs' =
     list_all2 (\<lambda>r r'. fst r = fst r' \<and> list_all (\<lambda>a. snd r a = snd r' a) cs) rs rs'"

definition same_table :: "frame \<Rightarrow> frame \<Rightarrow> bool" where
  "same_table fr fr' = (columns fr = columns fr' \<and> same_rows (columns fr) (rows fr) (rows fr'))"

text \<open>The score as the specification words it: p1, p3, p6 and p12 are the prices 21, 63, 126
  and 252 trading days (rows) before p0.\<close>

definition spec_momentum_score :: "fl list \<Rightarrow> nat \<Rightarrow> fl" where
  "spec_momentum_score xs i =
     weighted_score (xs ! i) (xs ! (i - 21)) (xs ! (i - 63)) (xs ! (i - 126)) (xs ! (i - 252))"

text \<open>The momentum start date as the specification words it: the first date at which at least
  one asset has a score.\<close>

definition first_scored_date :: "frame \<Rightarrow> date option" where
  "first_scored_date mom =
     map_option fst (find (\<lambda>r. list_ex (\<lambda>a. \<not> isnull (snd r a)) (columns mom)) (rows mom))"

text \<open>The example price table again, with other values outside its columns.\<close>

definition ex_data_alt :: frame where
  "ex_data_alt = \<lparr>columns = [''A'', ''B''],
     rows = [((2017, 3, 30), (\<lambda>a. Fin 0)(''A'' := Fin 100, ''B'' := Fin 50)),
             ((2017, 3, 31), (\<lambda>a. Fin 0)(''A'' := Fin 110, ''B'' := Fin 50)),
             ((2017, 4, 27), (\<lambda>a. Fin 0)(''A'' := Fin 110, ''B'' := Fin 50)),
             ((2017, 4, 28), (\<lambda>a. Fin 0)(''A'' := Fin 121, ''B'' := Fin 40)),
             ((2017, 5, 31), (\<lambda>a. Fin 0)(''A'' := Fin 121, ''B'' := Fin 40))]\<rparr>"

section \<open>Evaluation rules\<close>

lemmas fl_simps = minus_fl_def isnull_def

lemmas frame_simps = loc_def row_series_def dropna_series_def nlargest_def sort_desc_def
  loc_slice_def select_columns_def pct_change_def ffill_def dropna_def mean_axis1_def
  fl_mean_def fl_sum_def fl_prod_def month_begin_before_def Let_def

lemmas sim_simps = rebalance_def top_assets_of_def monthly_returns_def cumulative_return_def
  init_state_def n_defined_def valid_return_days_def period_return_def backtest_def

section \<open>Selection\<close>

lemma length_insert_desc: "length (insert_desc p qs) = Suc (length qs)"
  by (induction qs) auto

lemma length_sort_desc: "length (sort_desc s) = length s"
  unfolding sort_desc_def by (induction s) (auto simp: length_insert_desc)

lemma set_insert_desc: "set (insert_desc p qs) = insert p (set qs)"
  by (induction qs) auto

lemma set_sort_desc: "set (sort_desc s) = set s"
  unfolding sort_desc_def by (induction s) (auto simp: set_insert_desc)

lemma length_top_assets:
  "length (top_assets_of mom n r) = min n (length (dropna_series (row_series mom r)))"
  by (simp add: top_assets_of_def nlargest_def length_sort_desc min.commute)

lemma top_assets_defined:
  assumes "a \<in> set (top_assets_of mom n r)"
  shows "a \<in> set (columns mom) \<and> \<not> isnull (snd r a)"
proof -
  from assms obtain x where "(a, x) \<in> set (nlargest n (dropna_series (row_series mom r)))"
    by (auto simp: top_assets_of_def)
  then have "(a, x) \<in> set (dropna_series (row_series mom r))"
    unfolding nlargest_def using set_sort_desc in_set_takeD by fastforce
  then show ?thesis
    by (auto simp: dropna_series_def row_series_def)
qed

section \<open>The transition of the simulator\<close>

text \<open>
  C1. At a rebalance date where fewer than \<open>top_n\<close> assets have a momentum score, or
  where the holding window has no valid return day, the transition returns the state as
  it was (value, recorded values and dates, holdings). A transition that changes the
  state selects exactly \<open>top_n\<close> assets, each a column with a score at that date.
\<close>

theorem skip_preserves_state_select_exactly_n:
  "(n_defined mom d < top_n \<longrightarrow> rebalance data mom top_n st d = st) \<and>
   (valid_return_days data mom top_n d = [] \<longrightarrow> rebalance data mom top_n st d = st) \<and>
   (rebalance data mom top_n st d \<noteq> st \<longrightarrow>
      (\<exists>r top. loc mom d = Some r \<and>
         current_portfolio (rebalance data mom top_n st d) = Some top \<and>
         length top = top_n \<and>
         (\<forall>a \<in> set top. a \<in> set (columns mom) \<and> \<not> isnull (snd r a))))"
proof (cases "loc mom d")
  case None
  then show ?thesis by (simp add: rebalance_def)
next
  case (Some r)
  have len: "length (top_assets_of mom top_n r) = min top_n (n_defined mom d)"
    using Some by (simp add: length_top_assets n_defined_def)
  show ?thesis
    using Some len top_assets_defined[of _ mom top_n r]
    by (auto simp: rebalance_def valid_return_days_def Let_def)
qed

theorem skip_preserves_state_select_exactly_n_witness:
  "n_defined ex_mom (2017, 3, 31) < 2 \<and>
   rebalance ex_data ex_mom 2 (init_state 1000) (2017, 3, 31) = init_state 1000 \<and>
   valid_return_days ex_data ex_mom 1 (2017, 5, 31) = [] \<and>
   rebalance ex_data ex_mom 1 (init_state 1000) (2017, 5, 31) = init_state 1000 \<and>
   rebalance ex_data ex_mom 2 (init_state 1000) (2017, 4, 28) \<noteq> init_state 1000 \<and>
   (\<exists>top. current_portfolio (rebalance ex_data ex_mom 2 (init_state 1000) (2017, 4, 28)) = Some top \<and>
          length top = 2)"
proof -
  have h1: "n_defined ex_mom (2017, 3, 31) < 2"
    by (simp add: ex_mom_def fl_simps frame_simps sim_simps)
  have h2: "valid_return_days ex_data ex_mom 1 (2017, 5, 31) = []"
    by (simp add: ex_mom_def ex_data_def fl_simps frame_simps sim_simps)
  have h3: "rebalance ex_data ex_mom 2 (init_state 1000) (2017, 4, 28) \<noteq> init_state 1000"
    by (simp add: ex_mom_def ex_data_def fl_simps frame_simps sim_simps)
  have c1: "rebalance ex_data ex_mom 2 (init_state 1000) (2017, 3, 31) = init_state 1000"
    using h1 skip_preserves_state_select_exactly_n
      [where mom = ex_mom and d = "(2017, 3, 31)" and top_n = 2 and data = ex_data]
    by blast
  have c2: "rebalance ex_data ex_mom 1 (init_state 1000) (2017, 5, 31) = init_state 1000"
    using h2 skip_preserves_state_select_exactly_n
      [where mom = ex_mom and d = "(2017, 5, 31)" and top_n = 1 and data = ex_data]
    by blast
  have c3: "\<exists>top. current_portfolio (rebalance ex_data ex_mom 2 (init_state 1000) (2017, 4, 28)) = Some top \<and>
          length top = 2"
    using h3 skip_preserves_state_select_exactly_n
      [where mom = ex_mom and d = "(2017, 4, 28)" and top_n = 2 and data = ex_data
         and st = "init_state 1000"]
    by blast
  show ?thesis using h1 h2 h3 c1 c2 c3 by blast
qed

section \<open>Compounding\<close>

lemma rebalance_skip:
  "period_return data mom top_n d = None \<Longrightarrow> rebalance data mom top_n st d = st"
  by (auto simp: period_return_def rebalance_def Let_def split: option.splits if_splits)

lemma rebalance_success:
  "period_return data mom top_n d = Some r \<Longrightarrow>
   portfolio_value (rebalance data mom top_n st d) = portfolio_value st * (Fin 1 + r) \<and>
   portfolio_values (rebalance data mom top_n st d) =
     portfolio_values st @ [portfolio_value st * (Fin 1 + r)] \<and>
   portfolio_dates (rebalance data mom top_n st d) = portfolio_dates st @ [d]"
  by (auto simp: period_return_def rebalance_def Let_def split: option.splits if_splits)

lemma foldl_rebalance_values:
  "portfolio_values (foldl (rebalance data mom top_n) st ds) =
     portfolio_values st @ compound (portfolio_value st) (period_returns data mom top_n ds) \<and>
   portfolio_value (foldl (rebalance data mom top_n) st ds) =
     foldl (\<lambda>v r. v * (Fin 1 + r)) (portfolio_value st) (period_returns data mom top_n ds)"
proof (induction ds arbitrary: st)
  case Nil
  then show ?case by simp
next
  case (Cons d ds)
  show ?case
  proof (cases "period_return data mom top_n d")
    case None
    then show ?thesis using Cons[of st] by (simp add: rebalance_skip)
  next
    case (Some r)
    then show ?thesis
      using Cons[of "rebalance data mom top_n st d"] rebalance_success[OF Some, of st]
      by simp
  qed
qed

lemma length_compound: "length (compound v rs) = length rs"
  by (induction rs arbitrary: v) auto

lemma compound_nth:
  "k < length rs \<Longrightarrow> (v # compound v rs) ! Suc k = (v # compound v rs) ! k * (Fin 1 + rs ! k)"
proof (induction rs arbitrary: v k)
  case Nil
  then show ?case by simp
next
  case (Cons r rs)
  show ?case
  proof (cases k)
    case 0
    then show ?thesis by simp
  next
    case (Suc j)
    then have "j < length rs" using Cons.prems by simp
    from Cons.IH[OF this, of "v * (Fin 1 + r)"] show ?thesis using Suc by simp
  qed
qed

lemma last_compound: "last (v # compound v rs) = foldl (\<lambda>v r. v * (Fin 1 + r)) v rs"
  by (induction rs arbitrary: v) auto

text \<open>
  C7. The recorded values start at the initial capital, and the value recorded at the
  k-th successful rebalance is the previous recorded value times one plus the k-th period
  return; so the final portfolio value is the initial capital compounded through the
  period returns in order, and is the last recorded value.
\<close>

theorem compounding_law:
  "portfolio_values (backtest data mom top_n c ds) =
     Fin c # compound (Fin c) (period_returns data mom top_n ds) \<and>
   portfolio_values (backtest data mom top_n c ds) ! 0 = Fin c \<and>
   (\<forall>k < length (period_returns data mom top_n ds).
      portfolio_values (backtest data mom top_n c ds) ! Suc k =
      portfolio_values (backtest data mom top_n c ds) ! k
        * (Fin 1 + period_returns data mom top_n ds ! k)) \<and>
   portfolio_value (backtest data mom top_n c ds) =
     foldl (\<lambda>v r. v * (Fin 1 + r)) (Fin c) (period_returns data mom top_n ds) \<and>
   portfolio_value (backtest data mom top_n c ds) =
     last (portfolio_values (backtest data mom top_n c ds))"
proof -
  let ?rs = "period_returns data mom top_n ds"
  have v: "portfolio_values (backtest data mom top_n c ds) = Fin c # compound (Fin c) ?rs"
    and f: "portfolio_value (backtest data mom top_n c ds) =
              foldl (\<lambda>v r. v * (Fin 1 + r)) (Fin c) ?rs"
    using foldl_rebalance_values[of data mom top_n "init_state c" ds]
    by (simp_all add: backtest_def init_state_def)
  show ?thesis
    unfolding v f using compound_nth[of _ ?rs "Fin c"] last_compound[of "Fin c" ?rs]
    by simp
qed

theorem compounding_law_witness:
  "period_returns ex_data ex_mom 1 [(2017, 3, 31), (2017, 4, 28), (2017, 5, 31)]
     = [Fin (1 / 10), Fin (1 / 10)] \<and>
   portfolio_values (backtest ex_data ex_mom 1 1000 [(2017, 3, 31), (2017, 4, 28), (2017, 5, 31)])
     = [Fin 1000, Fin 1100, Fin 1210] \<and>
   portfolio_value (backtest ex_data ex_mom 1 1000 [(2017, 3, 31), (2017, 4, 28), (2017, 5, 31)])
     = Fin 1210 \<and>
   0 < length (period_returns ex_data ex_mom 1 [(2017, 3, 31), (2017, 4, 28), (2017, 5, 31)]) \<and>
   portfolio_values (backtest ex_data ex_mom 1 1000 [(2017, 3, 31), (2017, 4, 28), (2017, 5, 31)]) ! Suc 0
     = portfolio_values (backtest ex_data ex_mom 1 1000 [(2017, 3, 31), (2017, 4, 28), (2017, 5, 31)]) ! 0
       * (Fin 1 + period_returns ex_data ex_mom 1 [(2017, 3, 31), (2017, 4, 28), (2017, 5, 31)] ! 0)"
proof -
  have rs: "period_returns ex_data ex_mom 1 [(2017, 3, 31), (2017, 4, 28), (2017, 5, 31)]
     = [Fin (1 / 10), Fin (1 / 10)]"
    by (simp add: ex_mom_def ex_data_def fl_simps frame_simps sim_simps)
  show ?thesis
    using compounding_law
      [of ex_data ex_mom 1 1000 "[(2017, 3, 31), (2017, 4, 28), (2017, 5, 31)]"]
    unfolding rs by simp
qed

section \<open>Positive values\<close>

lemma pos_fl_iff: "pos_fl x \<longleftrightarrow> (\<exists>v. x = Fin v \<and> 0 < v)"
  by (cases x) (auto simp: pos_fl_def)

lemma gt_m1_iff: "gt_m1 x \<longleftrightarrow> (\<exists>v. x = Fin v \<and> - 1 < v)"
  by (cases x) (auto simp: gt_m1_def)

lemma ffill_rows_pos:
  "\<forall>a\<in>S. isnull (prev a) \<or> pos_fl (prev a) \<Longrightarrow>
   \<forall>r\<in>set rs. \<forall>a\<in>S. isnull (snd r a) \<or> pos_fl (snd r a) \<Longrightarrow>
   \<forall>r\<in>set (ffill_rows prev rs). \<forall>a\<in>S. isnull (snd r a) \<or> pos_fl (snd r a)"
proof (induction rs arbitrary: prev)
  case Nil
  then show ?case by simp
next
  case (Cons r rs)
  let ?g = "\<lambda>a. if isnull (snd r a) then prev a else snd r a"
  have g: "\<forall>a\<in>S. isnull (?g a) \<or> pos_fl (?g a)"
    using Cons.prems by auto
  have "\<forall>r\<in>set (ffill_rows ?g rs). \<forall>a\<in>S. isnull (snd r a) \<or> pos_fl (snd r a)"
    using Cons.IH[OF g] Cons.prems(2) by simp
  then show ?case using g by (simp add: Let_def)
qed

lemma pct_cell: 
  "isnull x \<or> pos_fl x \<Longrightarrow> isnull p \<or> pos_fl p \<Longrightarrow> isnull (x / p - Fin 1) \<or> gt_m1 (x / p - Fin 1)"
  by (cases x; cases p) (auto simp: isnull_def pos_fl_def gt_m1_def minus_fl_def)

lemma pct_rows_gt:
  "\<forall>a\<in>S. isnull (prev a) \<or> pos_fl (prev a) \<Longrightarrow>
   \<forall>r\<in>set rs. \<forall>a\<in>S. isnull (snd r a) \<or> pos_fl (snd r a) \<Longrightarrow>
   \<forall>r\<in>set (pct_rows prev rs). \<forall>a\<in>S. isnull (snd r a) \<or> gt_m1 (snd r a)"
proof (induction rs arbitrary: prev)
  case Nil
  then show ?case by simp
next
  case (Cons r rs)
  have "\<forall>r\<in>set (pct_rows (snd r) rs). \<forall>a\<in>S. isnull (snd r a) \<or> gt_m1 (snd r a)"
    using Cons.IH[of "snd r"] Cons.prems(2) by simp
  then show ?case using Cons.prems pct_cell by simp
qed

lemma foldl_plus_gt:
  "\<forall>x\<in>set xs. gt_m1 x \<Longrightarrow>
   \<exists>t. foldl (+) (Fin s) xs = Fin t \<and> s - real (length xs) \<le> t \<and> (xs \<noteq> [] \<longrightarrow> s - real (length xs) < t)"
proof (induction xs arbitrary: s)
  case Nil
  then show ?case by simp
next
  case (Cons x xs)
  then obtain v where v: "x = Fin v" "- 1 < v" by (auto simp: gt_m1_iff)
  from Cons.IH[of "s + v"] Cons.prems obtain t where
    t: "foldl (+) (Fin (s + v)) xs = Fin t" "s + v - real (length xs) \<le> t" by auto
  show ?case using v t by auto
qed

lemma fl_mean_gt:
  assumes "\<forall>x\<in>set xs. gt_m1 x"
  shows "isnull (fl_mean xs) \<or> gt_m1 (fl_mean xs)"
proof (cases "xs = []")
  case True
  then show ?thesis by (simp add: fl_mean_def isnull_def)
next
  case False
  have nn: "filter (\<lambda>x. \<not> isnull x) xs = xs"
    using assms by (auto simp: gt_m1_iff isnull_def intro!: filter_True)
  from foldl_plus_gt[OF assms, of 0] False obtain t where
    t: "foldl (+) (Fin 0) xs = Fin t" "- real (length xs) < t" by auto
  have len: "0 < real (length xs)" using False by simp
  have "- 1 < t / real (length xs)"
    using t(2) len by (simp add: pos_less_divide_eq)
  then show ?thesis
    using False t len by (simp add: fl_mean_def nn fl_sum_def gt_m1_def Let_def)
qed

lemma foldl_times_pos:
  "0 < p \<Longrightarrow> \<forall>x\<in>set xs. pos_fl x \<Longrightarrow> pos_fl (foldl (*) (Fin p) xs)"
proof (induction xs arbitrary: p)
  case Nil
  then show ?case by (simp add: pos_fl_def)
next
  case (Cons x xs)
  then obtain v where v: "x = Fin v" "0 < v" by (auto simp: pos_fl_iff)
  show ?case using Cons.IH[of "p * v"] Cons.prems v by simp
qed

lemma fl_prod_pos:
  assumes "\<forall>x\<in>set xs. isnull x \<or> pos_fl x"
  shows "pos_fl (fl_prod xs)"
  unfolding fl_prod_def using assms by (intro foldl_times_pos) auto

lemma one_plus_gt: "isnull x \<or> gt_m1 x \<Longrightarrow> isnull (Fin 1 + x) \<or> pos_fl (Fin 1 + x)"
  by (cases x) (auto simp: isnull_def gt_m1_def pos_fl_def)

lemma monthly_returns_gt:
  assumes pp: "positive_prices data" and sub: "set sel \<subseteq> set (columns data)"
  shows "\<forall>p\<in>set (monthly_returns data sel d). isnull (snd p) \<or> gt_m1 (snd p)"
proof -
  let ?S = "set sel"
  let ?rs = "filter (\<lambda>r. month_begin_before d \<le> fst r \<and> fst r \<le> d) (rows data)"
  have cells: "\<forall>r\<in>set ?rs. \<forall>a\<in>?S. isnull (snd r a) \<or> pos_fl (snd r a)"
    using pp sub unfolding positive_prices_def list_all_iff by fastforce
  have "\<forall>r\<in>set (ffill_rows (\<lambda>a. NaN) ?rs). \<forall>a\<in>?S. isnull (snd r a) \<or> pos_fl (snd r a)"
    by (rule ffill_rows_pos) (use cells in \<open>auto simp: isnull_def\<close>)
  then have pct: "\<forall>r\<in>set (pct_rows (\<lambda>a. NaN) (ffill_rows (\<lambda>a. NaN) ?rs)). \<forall>a\<in>?S. isnull (snd r a) \<or> gt_m1 (snd r a)"
    by (intro pct_rows_gt) (auto simp: isnull_def)
  show ?thesis
  proof
    fix p assume "p \<in> set (monthly_returns data sel d)"
    then obtain r where r: "r \<in> set (pct_rows (\<lambda>a. NaN) (ffill_rows (\<lambda>a. NaN) ?rs))"
      and keep: "list_all (\<lambda>a. \<not> isnull (snd r a)) sel"
      and p: "p = (fst r, fl_mean (map (snd r) sel))"
      by (auto simp: monthly_returns_def mean_axis1_def dropna_def pct_change_def ffill_def
          select_columns_def loc_slice_def Let_def)
    have "\<forall>x\<in>set (map (snd r) sel). gt_m1 x"
      using pct r keep by (auto simp: list_all_iff)
    then show "isnull (snd p) \<or> gt_m1 (snd p)"
      using fl_mean_gt p by simp
  qed
qed

lemma cumulative_return_pos:
  assumes "\<forall>p\<in>set mr. isnull (snd p) \<or> gt_m1 (snd p)"
  shows "pos_fl (Fin 1 + cumulative_return mr)"
proof -
  have "pos_fl (fl_prod (map (\<lambda>p. Fin 1 + snd p) mr))"
    by (rule fl_prod_pos) (use assms one_plus_gt in auto)
  then obtain v where "fl_prod (map (\<lambda>p. Fin 1 + snd p) mr) = Fin v" "0 < v"
    by (auto simp: pos_fl_iff)
  then show ?thesis
    by (simp add: cumulative_return_def minus_fl_def pos_fl_def)
qed

lemma pos_times: "pos_fl x \<Longrightarrow> pos_fl y \<Longrightarrow> pos_fl (x * y)"
  by (auto simp: pos_fl_iff)

lemma rebalance_pos:
  assumes pp: "positive_prices data" and sub: "set (columns mom) \<subseteq> set (columns data)"
    and v: "pos_fl (portfolio_value st)" and vs: "list_all pos_fl (portfolio_values st)"
  shows "pos_fl (portfolio_value (rebalance data mom top_n st d)) \<and>
         list_all pos_fl (portfolio_values (rebalance data mom top_n st d))"
proof (cases "loc mom d")
  case None
  then show ?thesis using v vs by (simp add: rebalance_def)
next
  case (Some r)
  let ?sel = "top_assets_of mom top_n r"
  have "set ?sel \<subseteq> set (columns data)"
    using top_assets_defined[of _ mom top_n r] sub by auto
  then have "pos_fl (Fin 1 + cumulative_return (monthly_returns data ?sel d))"
    using monthly_returns_gt[OF pp] cumulative_return_pos by blast
  then have "pos_fl (portfolio_value st * (Fin 1 + cumulative_return (monthly_returns data ?sel d)))"
    using v pos_times by blast
  then show ?thesis
    using Some v vs by (simp add: rebalance_def Let_def)
qed

lemma foldl_rebalance_pos:
  assumes pp: "positive_prices data" and sub: "set (columns mom) \<subseteq> set (columns data)"
  shows "pos_fl (portfolio_value st) \<Longrightarrow> list_all pos_fl (portfolio_values st) \<Longrightarrow>
     pos_fl (portfolio_value (foldl (rebalance data mom top_n) st ds)) \<and>
     list_all pos_fl (portfolio_values (foldl (rebalance data mom top_n) st ds))"
proof (induction ds arbitrary: st)
  case Nil
  then show ?case by simp
next
  case (Cons d ds)
  from rebalance_pos[OF pp sub Cons.prems, of top_n d]
  show ?case using Cons.IH[of "rebalance data mom top_n st d"] by simp
qed

text \<open>
  C10. When every price of the table is positive (where present) and the initial capital
  is positive, the portfolio value after the backtest, every value it recorded and every
  value of the history are positive finite numbers. Arithmetic is exact.
\<close>

theorem value_stays_positive:
  assumes "positive_prices data" and "set (columns mom) \<subseteq> set (columns data)" and "0 < c"
  shows "pos_fl (portfolio_value (backtest data mom top_n c ds)) \<and>
         list_all pos_fl (portfolio_values (backtest data mom top_n c ds)) \<and>
         list_all (\<lambda>p. pos_fl (snd p)) (history (backtest data mom top_n c ds))"
proof -
  have a: "pos_fl (portfolio_value (backtest data mom top_n c ds)) \<and>
         list_all pos_fl (portfolio_values (backtest data mom top_n c ds))"
    unfolding backtest_def
    by (rule foldl_rebalance_pos[OF assms(1,2)]) (use assms(3) in \<open>auto simp: init_state_def pos_fl_def\<close>)
  then have "\<forall>x\<in>set (tl (portfolio_values (backtest data mom top_n c ds))). pos_fl x"
    by (metis list.set_sel(2) list_all_iff tl_Nil)
  then have "list_all (\<lambda>p. pos_fl (snd p)) (history (backtest data mom top_n c ds))"
    unfolding history_def list_all_iff by (auto dest: set_zip_rightD)
  with a show ?thesis by simp
qed

section \<open>Momentum start date, empty momentum, MTD return\<close>

lemma find_as_filter: "find P xs = (case filter P xs of [] \<Rightarrow> None | x # _ \<Rightarrow> Some x)"
  by (induction xs) auto

lemma rows_dropna: "rows (dropna mom) = filter (fully_defined mom) (rows mom)"
  unfolding dropna_def by (auto intro: filter_cong simp: fully_defined_def)

lemma columns_dropna: "columns (dropna mom) = columns mom"
  by (simp add: dropna_def)

lemma momentum_start_date_find:
  "momentum_start_date mom =
     (if columns mom = [] then None else map_option fst (find (fully_defined mom) (rows mom)))"
  unfolding momentum_start_date_def empty_frame_def rows_dropna columns_dropna find_as_filter
  by (cases "filter (fully_defined mom) (rows mom)") simp_all

lemma all_undefined_start: "all_undefined mom \<Longrightarrow> momentum_start_date mom = None"
  by (cases "columns mom")
     (auto simp: momentum_start_date_find all_undefined_def fully_defined_def find_None_iff list_all_iff)

lemma all_undefined_skip: 
  assumes "all_undefined mom" shows "rebalance data mom top_n st d = st"
proof (cases "loc mom d")
  case None
  then show ?thesis by (simp add: rebalance_def)
next
  case (Some r)
  then have "r \<in> set (rows mom)"
    by (auto simp: loc_def find_Some_iff)
  then have "list_all (\<lambda>p. isnull (snd p)) (row_series mom r)"
    using assms by (auto simp: all_undefined_def row_series_def list_all_iff)
  then show ?thesis using Some by (simp add: rebalance_def)
qed

lemma all_undefined_raises:
  assumes "all_undefined mom" and "columns mom \<noteq> []"
  shows "initial_momentum_values mom = Inl IndexError"
proof -
  have "\<not> fully_defined mom r" if "r \<in> set (rows mom)" for r
    using that assms by (cases "columns mom") (auto simp: all_undefined_def fully_defined_def list_all_iff)
  then have "filter (fully_defined mom) (rows mom) = []"
    by (simp add: filter_empty_conv)
  then show ?thesis by (simp add: initial_momentum_values_def rows_dropna)
qed

text \<open>
  Lines 99-132 taken on their own, for a momentum table without any score: the guard at
  line 103 leaves the month-end labels unfiltered, and the loop skips every one of them.
\<close>

lemma unscored_dates_unfiltered_and_skipped:
  assumes "all_undefined mom"
  shows "rebalancing_dates data mom = month_ends data \<and>
         backtest data mom top_n c (rebalancing_dates data mom) = init_state c"
proof -
  have "foldl (rebalance data mom top_n) st ds = st" for st ds
    by (induction ds) (simp_all add: all_undefined_skip[OF assms])
  then show ?thesis
    by (simp add: backtest_def rebalancing_dates_def all_undefined_start[OF assms])
qed

text \<open>
  C3, amended. A month-end label is excluded from the rebalance sequence if and only if a
  momentum start date exists and the label is on or before it; the momentum start date is
  the date of the first row on which every column has a score (and there is none when
  there is no such row or no column).
\<close>

theorem month_end_excluded_iff:
  "(d \<in> set (month_ends data) \<longrightarrow>
      (d \<notin> set (rebalancing_dates data mom) \<longleftrightarrow> (\<exists>s. momentum_start_date mom = Some s \<and> d \<le> s))) \<and>
   set (rebalancing_dates data mom) \<subseteq> set (month_ends data) \<and>
   (momentum_start_date mom = Some s \<longleftrightarrow>
      columns mom \<noteq> [] \<and>
      (\<exists>i<length (rows mom). fst (rows mom ! i) = s \<and> fully_defined mom (rows mom ! i) \<and>
         (\<forall>j<i. \<not> fully_defined mom (rows mom ! j))))"
proof -
  have a: "d \<in> set (month_ends data) \<longrightarrow>
      (d \<notin> set (rebalancing_dates data mom) \<longleftrightarrow> (\<exists>s. momentum_start_date mom = Some s \<and> d \<le> s))"
    by (cases "momentum_start_date mom") (auto simp: rebalancing_dates_def)
  have b: "set (rebalancing_dates data mom) \<subseteq> set (month_ends data)"
    by (cases "momentum_start_date mom") (auto simp: rebalancing_dates_def)
  have c: "momentum_start_date mom = Some s \<longleftrightarrow>
      columns mom \<noteq> [] \<and>
      (\<exists>i<length (rows mom). fst (rows mom ! i) = s \<and> fully_defined mom (rows mom ! i) \<and>
         (\<forall>j<i. \<not> fully_defined mom (rows mom ! j)))"
  proof (cases "columns mom = []")
    case True
    then show ?thesis by (simp add: momentum_start_date_find)
  next
    case False
    have "momentum_start_date mom = Some s \<longleftrightarrow>
       (\<exists>r. find (fully_defined mom) (rows mom) = Some r \<and> fst r = s)"
      using False by (auto simp: momentum_start_date_find)
    also have "\<dots> \<longleftrightarrow> (\<exists>i<length (rows mom). fst (rows mom ! i) = s \<and> fully_defined mom (rows mom ! i) \<and>
         (\<forall>j<i. \<not> fully_defined mom (rows mom ! j)))"
      unfolding find_Some_iff by blast
    finally show ?thesis using False by simp
  qed
  from a b c show ?thesis by blast
qed

lemma foldl_rebalance_dates:
  "length (portfolio_dates (foldl (rebalance data mom top_n) st ds)) =
     length (portfolio_dates st) + length (period_returns data mom top_n ds)"
proof (induction ds arbitrary: st)
  case Nil
  then show ?case by simp
next
  case (Cons d ds)
  show ?case
  proof (cases "period_return data mom top_n d")
    case None
    then show ?thesis using Cons[of st] by (simp add: rebalance_skip)
  next
    case (Some r)
    then show ?thesis
      using Cons[of "rebalance data mom top_n st d"] rebalance_success[OF Some, of st]
      by simp
  qed
qed

lemma backtest_values_history:
  "portfolio_values (backtest data mom top_n c ds) = Fin c # map snd (history (backtest data mom top_n c ds))"
proof -
  let ?st = "backtest data mom top_n c ds"
  let ?rs = "period_returns data mom top_n ds"
  have v: "portfolio_values ?st = Fin c # compound (Fin c) ?rs"
    using foldl_rebalance_values[of data mom top_n "init_state c" ds]
    by (simp add: backtest_def init_state_def)
  have "length (portfolio_dates ?st) = length ?rs"
    using foldl_rebalance_dates[of data mom top_n "init_state c" ds]
    by (simp add: backtest_def init_state_def)
  then have "map snd (history ?st) = compound (Fin c) ?rs"
    by (simp add: history_def v length_compound)
  then show ?thesis using v by simp
qed

lemma mtd_short: "portfolio_mtd_return [c] = Fin 0"
  by (simp add: portfolio_mtd_return_def)

lemma mtd_pair: "portfolio_mtd_return [c, v] = (v / c - Fin 1) * Fin 100"
  by (simp add: portfolio_mtd_return_def)

lemma mtd_long:
  assumes "2 \<le> length xs"
  shows "portfolio_mtd_return (c # xs) = (xs ! (length xs - 1) / xs ! (length xs - 2) - Fin 1) * Fin 100"
proof -
  obtain n where n: "length xs = Suc (Suc n)"
    using assms by (metis Suc_le_D numeral_2_eq_2 Suc_le_mono)
  show ?thesis by (simp add: portfolio_mtd_return_def n)
qed

text \<open>
  C8, amended. The reported MTD return is zero when the history is empty; with one entry
  it is that value over the initial capital, minus one, times 100; with two or more it is
  the ratio of the last two history values, minus one, times 100.
\<close>

theorem mtd_return_percent:
  "(history (backtest data mom top_n c ds) = [] \<longrightarrow>
      portfolio_mtd_return (portfolio_values (backtest data mom top_n c ds)) = Fin 0) \<and>
   (history (backtest data mom top_n c ds) = [(d, v)] \<longrightarrow>
      portfolio_mtd_return (portfolio_values (backtest data mom top_n c ds)) =
        (v / Fin c - Fin 1) * Fin 100) \<and>
   (2 \<le> length (history (backtest data mom top_n c ds)) \<longrightarrow>
      portfolio_mtd_return (portfolio_values (backtest data mom top_n c ds)) =
        (snd (history (backtest data mom top_n c ds) ! (length (history (backtest data mom top_n c ds)) - 1))
           / snd (history (backtest data mom top_n c ds) ! (length (history (backtest data mom top_n c ds)) - 2))
         - Fin 1) * Fin 100)"
proof -
  define h where "h = history (backtest data mom top_n c ds)"
  have v: "portfolio_values (backtest data mom top_n c ds) = Fin c # map snd h"
    unfolding h_def by (rule backtest_values_history)
  have a: "h = [] \<longrightarrow> portfolio_mtd_return (Fin c # map snd h) = Fin 0"
    by (simp add: mtd_short)
  have b: "h = [(d, v)] \<longrightarrow> portfolio_mtd_return (Fin c # map snd h) = (v / Fin c - Fin 1) * Fin 100"
    by (simp add: mtd_pair)
  have c: "2 \<le> length h \<longrightarrow> portfolio_mtd_return (Fin c # map snd h) =
        (snd (h ! (length h - 1)) / snd (h ! (length h - 2)) - Fin 1) * Fin 100"
  proof
    assume l: "2 \<le> length h"
    then have "2 \<le> length (map snd h)" by simp
    from mtd_long[OF this, of "Fin c"] l show "portfolio_mtd_return (Fin c # map snd h) =
        (snd (h ! (length h - 1)) / snd (h ! (length h - 2)) - Fin 1) * Fin 100"
      by simp
  qed
  from a b c show ?thesis unfolding v h_def[symmetric] by blast
qed

section \<open>Momentum score\<close>

lemma length_rows_momentum: "length (rows (momentum fr)) = length (rows fr)"
  by (simp add: momentum_def)

lemma columns_momentum: "columns (momentum fr) = columns fr"
  by (simp add: momentum_def)

lemma momentum_row:
  "i < length (rows fr) \<Longrightarrow>
   rows (momentum fr) ! i =
     (fst (rows fr ! i), \<lambda>a. rolling_apply_at 252 calculate_momentum (column fr a) i)"
  by (simp add: momentum_def)

lemma index_momentum: "index (momentum fr) = index fr"
  by (auto simp: index_def momentum_def intro: nth_equalityI)

lemma count_prep_le:
  "length (filter (\<lambda>x. \<not> isnull x) (map prep_value ys)) \<le> length (filter (\<lambda>x. \<not> isnull x) ys)"
proof (induction ys)
  case Nil
  then show ?case by simp
next
  case (Cons y ys)
  then show ?case by (cases y) (auto simp: prep_value_def isnull_def)
qed

lemma count_drop_le: "length (filter P (drop k ys)) \<le> length (filter P ys)"
proof -
  have "filter P ys = filter P (take k ys) @ filter P (drop k ys)"
    by (metis append_take_drop_id filter_append)
  then show ?thesis by simp
qed

lemma rolling_too_few:
  assumes "obs_count xs i < w"
  shows "rolling_apply_at w f xs i = NaN"
proof -
  have "length (filter (\<lambda>x. \<not> isnull x) (window_at w xs i)) \<le> obs_count xs i"
    unfolding window_at_def obs_count_def
    using count_prep_le count_drop_le le_trans by blast
  then show ?thesis using assms by (simp add: rolling_apply_at_def Let_def)
qed

lemma obs_count_le: "obs_count xs i \<le> Suc i"
  unfolding obs_count_def
  by (metis length_filter_le length_take min.cobounded2 le_trans)

lemma calculate_momentum_252:
  "length ps = 252 \<Longrightarrow>
   calculate_momentum ps = weighted_score (ps ! 251) (ps ! 231) (ps ! 189) (ps ! 126) (ps ! 0)"
  by (simp add: calculate_momentum_def weighted_score_def Let_def)

lemma prep_finite: "is_finite x \<Longrightarrow> prep_value x = x \<and> \<not> isnull x"
  by (cases x) (auto simp: is_finite_def prep_value_def isnull_def)

lemma rolling_full:
  assumes i: "251 \<le> i" "i < length xs"
    and fin: "\<forall>j. i - 251 \<le> j \<and> j \<le> i \<longrightarrow> is_finite (xs ! j)"
  shows "rolling_apply_at 252 calculate_momentum xs i =
         weighted_score (xs ! i) (xs ! (i - 20)) (xs ! (i - 62)) (xs ! (i - 125)) (xs ! (i - 251))"
proof -
  define ys where "ys = drop (i - 251) (take (Suc i) xs)"
  have len: "length ys = 252" using i by (simp add: ys_def)
  have nth: "ys ! k = xs ! (i - 251 + k)" if "k < 252" for k
    using that i by (simp add: ys_def)
  have allfin: "\<forall>y\<in>set ys. is_finite y"
  proof
    fix y assume "y \<in> set ys"
    then obtain k where k: "k < 252" "y = ys ! k"
      by (metis in_set_conv_nth len)
    have "i - 251 \<le> i - 251 + k \<and> i - 251 + k \<le> i" using k(1) i by linarith
    then have "is_finite (xs ! (i - 251 + k))" using fin by blast
    then show "is_finite y" using nth[OF k(1)] k(2) by simp
  qed
  have win: "window_at 252 xs i = ys"
    unfolding window_at_def using i allfin
    by (simp add: ys_def[symmetric] Suc_diff_le prep_finite map_idI)
  have cnt: "filter (\<lambda>x. \<not> isnull x) ys = ys"
    using allfin by (simp add: prep_finite)
  have "rolling_apply_at 252 calculate_momentum xs i = calculate_momentum ys"
    by (simp add: rolling_apply_at_def win cnt len)
  also have "\<dots> = weighted_score (ys ! 251) (ys ! 231) (ys ! 189) (ys ! 126) (ys ! 0)"
    by (rule calculate_momentum_252[OF len])
  finally show ?thesis using i by (simp add: nth)
qed

lemma column_ffill_rows:
  "map (\<lambda>r. snd r a) (ffill_rows prev rs) = ffill_list (prev a) (map (\<lambda>r. snd r a) rs)"
  by (induction rs arbitrary: prev) (simp_all add: Let_def)

lemma column_ffill: "column (ffill fr) a = ffill_list NaN (column fr a)"
  by (simp add: column_def ffill_def column_ffill_rows)

lemma length_ffill_rows: "length (ffill_rows prev rs) = length rs"
  by (induction rs arbitrary: prev) (simp_all add: Let_def)

lemma ffill_list_nonnull: "\<not> isnull p \<Longrightarrow> \<forall>x\<in>set (ffill_list p xs). \<not> isnull x"
  by (induction xs arbitrary: p) (auto simp: Let_def)

lemma ffill_list_no_gap: "sorted_wrt (\<lambda>x y. isnull y \<longrightarrow> isnull x) (ffill_list p xs)"
proof (induction xs arbitrary: p)
  case Nil
  then show ?case by simp
next
  case (Cons x xs)
  then show ?case using ffill_list_nonnull by (auto simp: Let_def)
qed

lemma full_window_from_obs:
  assumes ng: "sorted_wrt (\<lambda>x y. isnull y \<longrightarrow> isnull x) xs"
    and i: "i < length xs" and obs: "252 \<le> obs_count xs i"
  shows "251 \<le> i \<and> (\<forall>j. i - 251 \<le> j \<and> j \<le> i \<longrightarrow> \<not> isnull (xs ! j))"
proof -
  have i251: "251 \<le> i" using obs obs_count_le[of xs i] by simp
  have "\<not> isnull (xs ! j)" if j: "i - 251 \<le> j" "j \<le> i" for j
  proof
    assume null: "isnull (xs ! j)"
    have before: "isnull (xs ! k)" if "k \<le> j" for k
    proof (cases "k = j")
      case True
      then show ?thesis using null by simp
    next
      case False
      then have "k < j" using that by simp
      then show ?thesis
        using ng null i j by (auto simp: sorted_wrt_iff_nth_less)
    qed
    define zs where "zs = take (Suc i) xs"
    have "filter (\<lambda>x. \<not> isnull x) (take (Suc j) zs) = []"
    proof -
      have "isnull z" if "z \<in> set (take (Suc j) zs)" for z
      proof -
        from that obtain k where "k < Suc j" "k < length zs" "z = zs ! k"
          by (auto simp: in_set_conv_nth)
        then show ?thesis using before[of k] by (simp add: zs_def)
      qed
      then show ?thesis by (simp add: filter_empty_conv)
    qed
    moreover have "filter (\<lambda>x. \<not> isnull x) zs =
        filter (\<lambda>x. \<not> isnull x) (take (Suc j) zs) @ filter (\<lambda>x. \<not> isnull x) (drop (Suc j) zs)"
      by (metis append_take_drop_id filter_append)
    ultimately have "obs_count xs i = length (filter (\<lambda>x. \<not> isnull x) (drop (Suc j) zs))"
      by (simp add: obs_count_def zs_def)
    also have "\<dots> \<le> length (drop (Suc j) zs)" by (rule length_filter_le)
    also have "\<dots> \<le> 251" using i j i251 by (simp add: zs_def)
    finally show False using obs by simp
  qed
  with i251 show ?thesis by blast
qed

lemma finite_iff: "is_finite x \<longleftrightarrow> \<not> isnull x \<and> not_infinite x"
  by (cases x) (auto simp: is_finite_def isnull_def not_infinite_def)

lemma momentum_cell_full:
  assumes i: "i < length (rows raw)"
    and obs: "252 \<le> obs_count (column (ffill raw) a) i"
    and ni: "list_all not_infinite (column (ffill raw) a)"
  shows "251 \<le> i \<and> (\<forall>j. i - 251 \<le> j \<and> j \<le> i \<longrightarrow> is_finite (column (ffill raw) a ! j)) \<and>
     snd (rows (momentum (ffill raw)) ! i) a =
       weighted_score (column (ffill raw) a ! i) (column (ffill raw) a ! (i - 20))
         (column (ffill raw) a ! (i - 62)) (column (ffill raw) a ! (i - 125))
         (column (ffill raw) a ! (i - 251))"
proof -
  let ?xs = "column (ffill raw) a"
  have len: "length ?xs = length (rows raw)"
    by (simp add: column_def ffill_def length_ffill_rows)
  have ng: "sorted_wrt (\<lambda>x y. isnull y \<longrightarrow> isnull x) ?xs"
    by (simp add: column_ffill ffill_list_no_gap)
  from full_window_from_obs[OF ng _ obs] i len
  have w: "251 \<le> i" "\<forall>j. i - 251 \<le> j \<and> j \<le> i \<longrightarrow> \<not> isnull (?xs ! j)" by auto
  have fin: "\<forall>j. i - 251 \<le> j \<and> j \<le> i \<longrightarrow> is_finite (?xs ! j)"
    using w(2) ni i len by (auto simp: finite_iff list_all_length)
  have "snd (rows (momentum (ffill raw)) ! i) a = rolling_apply_at 252 calculate_momentum ?xs i"
    using i by (simp add: momentum_row ffill_def length_ffill_rows)
  also have "\<dots> = weighted_score (?xs ! i) (?xs ! (i - 20)) (?xs ! (i - 62)) (?xs ! (i - 125)) (?xs ! (i - 251))"
    using rolling_full[OF w(1) _ fin] i len by simp
  finally show ?thesis using w(1) fin by blast
qed

lemma momentum_cell_few:
  assumes i: "i < length (rows fr)" and obs: "obs_count (column fr a) i < 252"
  shows "snd (rows (momentum fr) ! i) a = NaN"
  using i by (simp add: momentum_row rolling_too_few[OF obs])

text \<open>
  C2, amended. For an asset and row with at least 252 observations in the forward-filled
  table (and no infinite price), the score is the weighted blend with p0 the price of the
  row and p1, p3, p6, p12 the prices 20, 62, 125 and 251 rows before it.
\<close>

theorem momentum_score_formula:
  assumes "i < length (rows raw)"
    and "252 \<le> obs_count (column (ffill raw) a) i"
    and "list_all not_infinite (column (ffill raw) a)"
  shows "fst (rows (momentum (ffill raw)) ! i) = fst (rows raw ! i) \<and>
     snd (rows (momentum (ffill raw)) ! i) a =
       weighted_score (column (ffill raw) a ! i) (column (ffill raw) a ! (i - 20))
         (column (ffill raw) a ! (i - 62)) (column (ffill raw) a ! (i - 125))
         (column (ffill raw) a ! (i - 251))"
proof -
  have "fst (ffill_rows prev rs ! k) = fst (rs ! k)" if "k < length rs" for prev rs k
    using that
  proof (induction rs arbitrary: prev k)
    case Nil
    then show ?case by simp
  next
    case (Cons r rs)
    then show ?case by (cases k) (simp_all add: Let_def)
  qed
  then have "fst (rows (momentum (ffill raw)) ! i) = fst (rows raw ! i)"
    using assms(1) by (simp add: momentum_row ffill_def length_ffill_rows)
  then show ?thesis using momentum_cell_full[OF assms] by simp
qed

text \<open>
  C6. With fewer than 252 observations up to a row the score is missing (NaN: neither zero
  nor an error); with 252 or more, no infinite price and finite price ratios it is a
  finite number. Arithmetic is exact.
\<close>

theorem momentum_undefined_or_finite:
  assumes "i < length (rows raw)"
  shows "(obs_count (column (ffill raw) a) i < 252 \<longrightarrow>
            snd (rows (momentum (ffill raw)) ! i) a = NaN) \<and>
         (252 \<le> obs_count (column (ffill raw) a) i \<and>
          list_all not_infinite (column (ffill raw) a) \<and>
          is_finite (column (ffill raw) a ! i / column (ffill raw) a ! (i - 20)) \<and>
          is_finite (column (ffill raw) a ! i / column (ffill raw) a ! (i - 62)) \<and>
          is_finite (column (ffill raw) a ! i / column (ffill raw) a ! (i - 125)) \<and>
          is_finite (column (ffill raw) a ! i / column (ffill raw) a ! (i - 251)) \<longrightarrow>
            is_finite (snd (rows (momentum (ffill raw)) ! i) a))"
proof -
  have len: "i < length (rows (ffill raw))"
    using assms by (simp add: ffill_def length_ffill_rows)
  have a: "obs_count (column (ffill raw) a) i < 252 \<longrightarrow>
            snd (rows (momentum (ffill raw)) ! i) a = NaN"
    using momentum_cell_few[OF len] by blast
  have fin: "is_finite (weighted_score p0 p1 p3 p6 p12)"
    if "is_finite (p0 / p1)" "is_finite (p0 / p3)" "is_finite (p0 / p6)" "is_finite (p0 / p12)"
    for p0 p1 p3 p6 p12
  proof -
    from that obtain r1 r3 r6 r12 where
      "p0 / p1 = Fin r1" "p0 / p3 = Fin r3" "p0 / p6 = Fin r6" "p0 / p12 = Fin r12"
      by (auto simp: is_finite_def split: fl.splits)
    then show ?thesis by (simp add: weighted_score_def minus_fl_def is_finite_def)
  qed
  show ?thesis using a momentum_cell_full[OF assms, of a] fin by auto
qed

section \<open>The 255-row table\<close>

lemma ffill_rows_id:
  "\<forall>a. (isnull (prev a) \<and> (\<forall>r\<in>set rs. isnull (snd r a))) \<or> (\<forall>r\<in>set rs. \<not> isnull (snd r a)) \<Longrightarrow>
   ffill_rows prev rs = rs"
proof (induction rs arbitrary: prev)
  case Nil
  then show ?case by simp
next
  case (Cons r rs)
  let ?g = "\<lambda>a. if isnull (snd r a) then prev a else snd r a"
  have g: "?g = snd r"
  proof
    fix a
    show "?g a = snd r a" using Cons.prems by (auto simp: isnull_def)
  qed
  have "ffill_rows (snd r) rs = rs"
    by (rule Cons.IH) (use Cons.prems in auto)
  then show ?case by (simp add: g)
qed

lemma demo_length: "length (rows demo) = 255"
  by (simp add: demo_def)

lemma demo_nth: "i < 255 \<Longrightarrow> rows demo ! i = demo_row i"
  by (simp add: demo_def)

lemma demo_columns: "columns demo = [''A'']"
  by (simp add: demo_def)

lemma ffill_demo: "ffill demo = demo"
proof -
  have "ffill_rows (\<lambda>a. NaN) (rows demo) = rows demo"
    by (rule ffill_rows_id) (auto simp: demo_def demo_row_def isnull_def)
  then show ?thesis by (simp add: ffill_def)
qed

lemma demo_column: "column demo ''A'' = map (\<lambda>k. Fin (demo_price k)) [0..<255]"
  by (simp add: column_def demo_def demo_row_def)

lemma demo_cell_early: "i < 251 \<Longrightarrow> rolling_apply_at 252 calculate_momentum (column demo a) i = NaN"
  by (rule rolling_too_few) (use obs_count_le[of "column demo a" i] in simp)

lemma demo_cell_late:
  assumes "251 \<le> i" "i < 255"
  shows "rolling_apply_at 252 calculate_momentum (column demo ''A'') i =
     weighted_score (Fin (demo_price i)) (Fin (demo_price (i - 20))) (Fin (demo_price (i - 62)))
       (Fin (demo_price (i - 125))) (Fin (demo_price (i - 251)))"
proof -
  have "rolling_apply_at 252 calculate_momentum (column demo ''A'') i =
     weighted_score (column demo ''A'' ! i) (column demo ''A'' ! (i - 20)) (column demo ''A'' ! (i - 62))
       (column demo ''A'' ! (i - 125)) (column demo ''A'' ! (i - 251))"
    by (rule rolling_full) (use assms in \<open>auto simp: demo_column is_finite_def\<close>)
  then show ?thesis using assms by (simp add: demo_column)
qed

lemma demo_momentum_nth:
  "i < 255 \<Longrightarrow> rows (momentum demo) ! i =
     (demo_date i, \<lambda>a. rolling_apply_at 252 calculate_momentum (column demo a) i)"
  by (simp add: momentum_row demo_length demo_nth demo_row_def)

lemmas score_simps = weighted_score_def demo_price_def minus_fl_def

lemma demo_score_251: "rolling_apply_at 252 calculate_momentum (column demo ''A'') 251 = Fin 1"
  by (simp add: demo_cell_late score_simps)

lemma demo_score_253: "rolling_apply_at 252 calculate_momentum (column demo ''A'') 253 = Fin (19 / 10)"
  by (simp add: demo_cell_late score_simps)

lemma momentum_start_date_nth:
  assumes "columns mom \<noteq> []" "i < length (rows mom)" "fully_defined mom (rows mom ! i)"
    "\<forall>j<i. \<not> fully_defined mom (rows mom ! j)"
  shows "momentum_start_date mom = Some (fst (rows mom ! i))"
proof -
  have "find (fully_defined mom) (rows mom) = Some (rows mom ! i)"
    unfolding find_Some_iff using assms by blast
  then show ?thesis using assms(1) by (simp add: momentum_start_date_find)
qed

lemma demo_start: "momentum_start_date (momentum demo) = Some (2017, 2, 28)"
proof -
  have "momentum_start_date (momentum demo) = Some (fst (rows (momentum demo) ! 251))"
  proof (rule momentum_start_date_nth)
    show "columns (momentum demo) \<noteq> []" by (simp add: columns_momentum demo_columns)
    show "251 < length (rows (momentum demo))" by (simp add: length_rows_momentum demo_length)
    show "fully_defined (momentum demo) (rows (momentum demo) ! 251)"
      by (simp add: fully_defined_def columns_momentum demo_columns demo_momentum_nth
          demo_score_251 isnull_def)
    show "\<forall>j<251. \<not> fully_defined (momentum demo) (rows (momentum demo) ! j)"
      by (simp add: fully_defined_def columns_momentum demo_columns demo_momentum_nth
          demo_cell_early isnull_def)
  qed
  then show ?thesis by (simp add: demo_momentum_nth demo_date_def)
qed

lemma month_ends_nonempty:
  "rows fr \<noteq> [] \<Longrightarrow>
   month_ends fr = map month_end_of [month_ord (fst (hd (rows fr))) ..< Suc (month_ord (fst (last (rows fr))))]"
  by (cases "rows fr") (simp_all add: month_ends_def)

lemma demo_month_ends:
  "month_ends demo =
     [(2016, 6, 30), (2016, 7, 31), (2016, 8, 31), (2016, 9, 30), (2016, 10, 31), (2016, 11, 30),
      (2016, 12, 31), (2017, 1, 31), (2017, 2, 28), (2017, 3, 31), (2017, 4, 30)]"
proof -
  have ne: "rows demo \<noteq> []" using demo_length by auto
  have h: "hd (rows demo) = demo_row 0"
    using demo_nth[of 0] ne by (simp add: hd_conv_nth)
  have l: "last (rows demo) = demo_row 254"
    using demo_nth[of 254] ne by (simp add: last_conv_nth demo_length)
  have u: "[24197..<24208] = [24197, 24198, 24199, 24200, 24201, 24202, 24203, 24204, 24205, 24206, 24207::nat]"
    by (simp add: upt_rec)
  show ?thesis
    unfolding month_ends_nonempty[OF ne] h l
    by (simp add: demo_row_def demo_date_def month_ord_def u month_end_of_def days_in_month_def is_leap_def)
qed

lemma demo_rebalancing_dates:
  "rebalancing_dates demo (momentum demo) = [(2017, 3, 31), (2017, 4, 30)]"
  by (simp add: rebalancing_dates_def demo_start demo_month_ends)

lemma demo_date_before_march: "k < 252 \<Longrightarrow> \<not> (2017, 3, 1) \<le> demo_date k"
  by (auto simp: demo_date_def)

lemma demo_date_not_march_end: "k < 253 \<Longrightarrow> demo_date k \<noteq> (2017, 3, 31)"
  by (auto simp: demo_date_def)

lemma demo_date_not_april_end: "demo_date k \<noteq> (2017, 4, 30)"
  by (auto simp: demo_date_def)

lemma demo_index: "index demo = map demo_date [0..<255]"
  by (simp add: index_def demo_def demo_row_def comp_def)

lemma demo_loc_march: "loc (momentum demo) (2017, 3, 31) = Some (rows (momentum demo) ! 253)"
  unfolding loc_def find_Some_iff
proof (intro exI[of _ 253] conjI allI impI)
  show "253 < length (rows (momentum demo))" by (simp add: length_rows_momentum demo_length)
  show "fst (rows (momentum demo) ! 253) = (2017, 3, 31)"
    by (simp add: demo_momentum_nth demo_date_def)
  show "rows (momentum demo) ! 253 = rows (momentum demo) ! 253" by simp
  fix j :: nat assume "j < 253"
  then show "fst (rows (momentum demo) ! j) \<noteq> (2017, 3, 31)"
    by (simp add: demo_momentum_nth demo_date_not_march_end)
qed

lemma demo_april_absent: "(2017, 4, 30) \<notin> set (index demo)"
  by (metis demo_index demo_date_not_april_end imageE list.set_map)

lemma demo_loc_april: "loc (momentum demo) (2017, 4, 30) = None"
proof -
  have "(2017, 4, 30) \<notin> set (index (momentum demo))"
    using demo_april_absent by (simp add: index_momentum)
  then show ?thesis
    unfolding loc_def find_None_iff index_def by force
qed

lemma upt_255: "[0..<255] = [0..<252] @ [252, 253, 254]"
proof -
  have "[0..<252 + 3] = [0..<252] @ [252..<252 + 3]" by (rule upt_add_eq_append) simp
  moreover have "[252..<255] = [252, 253, 254::nat]" by (simp add: upt_rec)
  ultimately show ?thesis by simp
qed

lemma demo_march_slice:
  "rows (loc_slice demo (month_begin_before (2017, 3, 31)) (2017, 3, 31)) = [demo_row 252, demo_row 253]"
proof -
  have "filter (\<lambda>r. (2017, 3, 1) \<le> fst r \<and> fst r \<le> (2017, 3, 31)) (map demo_row [0..<252]) = []"
    using demo_date_before_march by (auto simp: filter_empty_conv demo_row_def)
  then show ?thesis
    by (simp add: loc_slice_def month_begin_before_def demo_def upt_255 demo_row_def demo_date_def)
qed

lemma demo_monthly_returns:
  "monthly_returns demo [''A''] (2017, 3, 31) = [((2017, 3, 31), Fin (1 / 10))]"
proof -
  have "rows (ffill (select_columns (loc_slice demo (month_begin_before (2017, 3, 31)) (2017, 3, 31)) [''A'']))
      = [demo_row 252, demo_row 253]"
  proof -
    have "ffill_rows (\<lambda>a. NaN) [demo_row 252, demo_row 253] = [demo_row 252, demo_row 253]"
      by (rule ffill_rows_id) (auto simp: demo_row_def isnull_def)
    then show ?thesis by (simp add: ffill_def select_columns_def demo_march_slice)
  qed
  then show ?thesis
    by (simp add: monthly_returns_def pct_change_def select_columns_def dropna_def
        mean_axis1_def fl_mean_def fl_sum_def fl_simps demo_row_def demo_date_def demo_price_def)
qed

lemma demo_row_series_253:
  "row_series (momentum demo) (rows (momentum demo) ! 253) = [(''A'', Fin (19 / 10))]"
  by (simp add: row_series_def columns_momentum demo_columns demo_momentum_nth demo_score_253)

lemma demo_top_assets: "top_assets_of (momentum demo) 1 (rows (momentum demo) ! 253) = [''A'']"
  unfolding top_assets_of_def demo_row_series_253
  by (simp add: dropna_series_def nlargest_def sort_desc_def isnull_def)

lemma demo_rebalance_march:
  "rebalance demo (momentum demo) 1 (init_state 100000) (2017, 3, 31) =
     \<lparr>portfolio_value = Fin 110000, portfolio_values = [Fin 100000, Fin 110000],
      portfolio_dates = [(2017, 3, 31)], current_portfolio = Some [''A'']\<rparr>"
  unfolding rebalance_def demo_loc_march option.case demo_row_series_253 demo_top_assets
    demo_monthly_returns Let_def
  by (simp add: cumulative_return_def fl_prod_def init_state_def fl_simps)

lemma demo_rebalance_april: "rebalance demo (momentum demo) top_n st (2017, 4, 30) = st"
  by (simp add: rebalance_def demo_loc_april)

lemma demo_run:
  "run demo 1 100000 =
     Inr \<lparr>portfolio_value = Fin 110000, portfolio_values = [Fin 100000, Fin 110000],
          portfolio_dates = [(2017, 3, 31)], current_portfolio = Some [''A'']\<rparr>"
proof -
  have "rows (dropna (momentum demo)) \<noteq> []"
    using demo_start by (auto simp: momentum_start_date_def empty_frame_def split: if_splits)
  then obtain shown where s: "initial_momentum_values (momentum demo) = Inr shown"
    by (cases "rows (dropna (momentum demo))") (simp_all add: initial_momentum_values_def)
  have b: "backtest demo (momentum demo) 1 100000 (rebalancing_dates demo (momentum demo)) =
     \<lparr>portfolio_value = Fin 110000, portfolio_values = [Fin 100000, Fin 110000],
      portfolio_dates = [(2017, 3, 31)], current_portfolio = Some [''A'']\<rparr>"
    unfolding backtest_def demo_rebalancing_dates foldl.simps demo_rebalance_march
      demo_rebalance_april
    by (rule refl)
  show ?thesis
    by (simp only: run_def ffill_demo Let_def s sum.case b)
qed

section \<open>Determinism\<close>

lemma same_rows_Nil [simp]: "same_rows cs [] []"
  by (simp add: same_rows_def)

lemma same_rows_Cons:
  "same_rows cs (r # rs) (r' # rs') \<longleftrightarrow>
     fst r = fst r' \<and> (\<forall>a\<in>set cs. snd r a = snd r' a) \<and> same_rows cs rs rs'"
  by (auto simp: same_rows_def list_all_iff)

lemma same_rows_induct [consumes 1, case_names Nil Cons]:
  assumes "same_rows cs rs rs'"
    and "P [] []"
    and "\<And>r rs r' rs'. fst r = fst r' \<Longrightarrow> \<forall>a\<in>set cs. snd r a = snd r' a \<Longrightarrow>
           same_rows cs rs rs' \<Longrightarrow> P rs rs' \<Longrightarrow> P (r # rs) (r' # rs')"
  shows "P rs rs'"
  using assms(1) unfolding same_rows_def
proof (induction rule: list_all2_induct)
  case Nil
  then show ?case by (rule assms(2))
next
  case (Cons r rs r' rs')
  then show ?case
    using assms(3)[of r r' rs rs'] by (simp add: same_rows_def list_all_iff)
qed

lemma same_rows_mono: "same_rows cs rs rs' \<Longrightarrow> set ds \<subseteq> set cs \<Longrightarrow> same_rows ds rs rs'"
  by (induction rule: same_rows_induct) (auto simp: same_rows_Cons)

lemma same_rows_filter:
  assumes "same_rows cs rs rs'"
    and "\<And>r r'. fst r = fst r' \<Longrightarrow> \<forall>a\<in>set cs. snd r a = snd r' a \<Longrightarrow> P r = Q r'"
  shows "same_rows cs (filter P rs) (filter Q rs')"
  using assms(1)
proof (induction rule: same_rows_induct)
  case Nil
  then show ?case by simp
next
  case (Cons r rs r' rs')
  then show ?case using assms(2)[of r r'] by (simp add: same_rows_Cons)
qed

lemma same_rows_find:
  assumes "same_rows cs rs rs'"
  shows "rel_option (\<lambda>r r'. fst r = fst r' \<and> (\<forall>a\<in>set cs. snd r a = snd r' a))
           (find (\<lambda>r. fst r = d) rs) (find (\<lambda>r. fst r = d) rs')"
  using assms by (induction rule: same_rows_induct) auto

lemma same_rows_ffill:
  assumes "same_rows cs rs rs'"
  shows "\<forall>a\<in>set cs. p a = p' a \<Longrightarrow> same_rows cs (ffill_rows p rs) (ffill_rows p' rs')"
  using assms
proof (induction arbitrary: p p' rule: same_rows_induct)
  case Nil
  then show ?case by simp
next
  case (Cons r rs r' rs')
  let ?g = "\<lambda>a. if isnull (snd r a) then p a else snd r a"
  let ?g' = "\<lambda>a. if isnull (snd r' a) then p' a else snd r' a"
  have g: "\<forall>a\<in>set cs. ?g a = ?g' a" using Cons.hyps(2) Cons.prems by simp
  from Cons.IH[OF g] g Cons.hyps(1) show ?case
    by (simp add: same_rows_Cons Let_def)
qed

lemma same_rows_pct:
  assumes "same_rows cs rs rs'"
  shows "\<forall>a\<in>set cs. p a = p' a \<Longrightarrow> same_rows cs (pct_rows p rs) (pct_rows p' rs')"
  using assms
proof (induction arbitrary: p p' rule: same_rows_induct)
  case Nil
  then show ?case by simp
next
  case (Cons r rs r' rs')
  from Cons.IH[OF Cons.hyps(2)] Cons.hyps(1,2) Cons.prems show ?case
    by (simp add: same_rows_Cons)
qed

lemma same_rows_mean:
  assumes "same_rows cs rs rs'"
  shows "map (\<lambda>r. (fst r, fl_mean (map (snd r) cs))) rs = map (\<lambda>r. (fst r, fl_mean (map (snd r) cs))) rs'"
  using assms
proof (induction rule: same_rows_induct)
  case Nil
  then show ?case by simp
next
  case (Cons r rs r' rs')
  have "map (snd r) cs = map (snd r') cs" using Cons.hyps(2) by simp
  then have "fl_mean (map (snd r) cs) = fl_mean (map (snd r') cs)" by (rule arg_cong)
  then show ?case using Cons.hyps(1) Cons.IH by simp
qed

lemma monthly_returns_same:
  assumes "same_table data data'" and "set sel \<subseteq> set (columns data)"
  shows "monthly_returns data sel d = monthly_returns data' sel d"
proof -
  let ?P = "\<lambda>r. month_begin_before d \<le> fst r \<and> fst r \<le> d"
  let ?K = "\<lambda>r. list_all (\<lambda>a. \<not> isnull (snd r a)) sel"
  have "same_rows sel (rows data) (rows data')"
    using assms by (auto simp: same_table_def intro: same_rows_mono)
  then have "same_rows sel (filter ?P (rows data)) (filter ?P (rows data'))"
    by (rule same_rows_filter) simp
  then have "same_rows sel (ffill_rows (\<lambda>a. NaN) (filter ?P (rows data)))
                (ffill_rows (\<lambda>a. NaN) (filter ?P (rows data')))"
    by (rule same_rows_ffill) simp
  then have "same_rows sel (pct_rows (\<lambda>a. NaN) (ffill_rows (\<lambda>a. NaN) (filter ?P (rows data))))
                (pct_rows (\<lambda>a. NaN) (ffill_rows (\<lambda>a. NaN) (filter ?P (rows data'))))"
    by (rule same_rows_pct) simp
  then have "same_rows sel (filter ?K (pct_rows (\<lambda>a. NaN) (ffill_rows (\<lambda>a. NaN) (filter ?P (rows data)))))
                (filter ?K (pct_rows (\<lambda>a. NaN) (ffill_rows (\<lambda>a. NaN) (filter ?P (rows data')))))"
    by (rule same_rows_filter) (simp add: list_all_iff)
  from same_rows_mean[OF this] show ?thesis
    by (simp add: monthly_returns_def mean_axis1_def dropna_def pct_change_def ffill_def
        select_columns_def loc_slice_def)
qed

lemma rebalance_same:
  assumes d: "same_table data data'" and m: "same_table mom mom'"
    and sub: "set (columns mom) \<subseteq> set (columns data)"
  shows "rebalance data mom top_n st d = rebalance data' mom' top_n st d"
proof -
  have cols: "columns mom' = columns mom" using m by (simp add: same_table_def)
  have rel: "rel_option (\<lambda>r r'. fst r = fst r' \<and> (\<forall>a\<in>set (columns mom). snd r a = snd r' a))
           (loc mom d) (loc mom' d)"
    unfolding loc_def using m by (intro same_rows_find) (auto simp: same_table_def)
  show ?thesis
  proof (cases "loc mom d")
    case None
    then have "loc mom' d = None" using rel by simp
    then show ?thesis using None by (simp add: rebalance_def)
  next
    case (Some r)
    then obtain r' where r': "loc mom' d = Some r'" "\<forall>a\<in>set (columns mom). snd r a = snd r' a"
      using rel by (auto simp: option_rel_Some1)
    have rs: "row_series mom' r' = row_series mom r"
      using r'(2) by (simp add: row_series_def cols)
    then have ta: "top_assets_of mom' top_n r' = top_assets_of mom top_n r"
      by (simp add: top_assets_of_def)
    have "set (top_assets_of mom top_n r) \<subseteq> set (columns data)"
      using top_assets_defined[of _ mom top_n r] sub by auto
    then have mr: "monthly_returns data' (top_assets_of mom top_n r) d =
                   monthly_returns data (top_assets_of mom top_n r) d"
      using monthly_returns_same[OF d] by simp
    show ?thesis
      by (simp add: rebalance_def Some r'(1) rs ta mr Let_def)
  qed
qed

text \<open>
  C9. Two runs of the simulator on the same price table, the same momentum table, the same
  dates, the same N and the same initial capital end in the same state: the same history
  and the same holdings.
\<close>

theorem backtest_deterministic:
  assumes "same_table data data'" and "same_table mom mom'"
    and "set (columns mom) \<subseteq> set (columns data)"
    and "ds = ds'" and "top_n = top_n'" and "c = c'"
  shows "history (backtest data mom top_n c ds) = history (backtest data' mom' top_n' c' ds') \<and>
         current_portfolio (backtest data mom top_n c ds) =
           current_portfolio (backtest data' mom' top_n' c' ds') \<and>
         backtest data mom top_n c ds = backtest data' mom' top_n' c' ds'"
proof -
  have "rebalance data mom top_n = rebalance data' mom' top_n"
    using rebalance_same[OF assms(1-3)] by (intro ext)
  then show ?thesis using assms(4-6) by (simp add: backtest_def)
qed

lemma same_table_refl: "same_table fr fr"
  by (simp add: same_table_def same_rows_def list_all2_refl list_all_iff)

section \<open>Counterexamples on the 255-row table\<close>

lemma demo_obs: "i < 255 \<Longrightarrow> obs_count (column demo ''A'') i = Suc i"
  by (simp add: obs_count_def demo_column isnull_def take_map filter_map comp_def)

lemma demo_not_infinite: "list_all not_infinite (column demo ''A'')"
  by (simp add: demo_column list_all_iff not_infinite_def)

lemma demo_col_nth: "i < 255 \<Longrightarrow> column demo ''A'' ! i = Fin (demo_price i)"
  by (simp add: demo_column)

text \<open>
  C2 as stated fails: at row 253 of the 255-row table the score is 19/10, while the
  formula over the prices 21, 63, 126 and 252 rows back gives 3.
\<close>

theorem spec_offsets_counterexample:
  "252 \<le> obs_count (column (ffill demo) ''A'') 253 \<and>
   snd (rows (momentum (ffill demo)) ! 253) ''A'' = Fin (19 / 10) \<and>
   spec_momentum_score (column (ffill demo) ''A'') 253 = Fin 3 \<and>
   snd (rows (momentum (ffill demo)) ! 253) ''A'' \<noteq> spec_momentum_score (column (ffill demo) ''A'') 253"
proof -
  have a: "252 \<le> obs_count (column (ffill demo) ''A'') 253"
    by (simp add: ffill_demo demo_obs)
  have b: "snd (rows (momentum (ffill demo)) ! 253) ''A'' = Fin (19 / 10)"
    by (simp add: ffill_demo demo_momentum_nth demo_score_253)
  have c: "spec_momentum_score (column (ffill demo) ''A'') 253 = Fin 3"
    by (simp add: ffill_demo spec_momentum_score_def demo_col_nth score_simps)
  show ?thesis using a b c by simp
qed

text \<open>
  C2 amended, at row 253 of the 255-row table.
\<close>

theorem momentum_score_formula_witness:
  "253 < length (rows demo) \<and>
   252 \<le> obs_count (column (ffill demo) ''A'') 253 \<and>
   list_all not_infinite (column (ffill demo) ''A'') \<and>
   fst (rows (momentum (ffill demo)) ! 253) = (2017, 3, 31) \<and>
   snd (rows (momentum (ffill demo)) ! 253) ''A'' = Fin (19 / 10)"
proof -
  have h1: "253 < length (rows demo)" by (simp add: demo_length)
  have h2: "252 \<le> obs_count (column (ffill demo) ''A'') 253"
    by (simp add: ffill_demo demo_obs)
  have h3: "list_all not_infinite (column (ffill demo) ''A'')"
    by (simp add: ffill_demo demo_not_infinite)
  from momentum_score_formula[OF h1 h2 h3] h1 h2 h3 show ?thesis
    by (simp add: ffill_demo demo_col_nth demo_nth demo_row_def demo_date_def score_simps)
qed

text \<open>
  C6, at rows 10 and 253 of the 255-row table.
\<close>

theorem momentum_undefined_or_finite_witness:
  "10 < length (rows demo) \<and>
   obs_count (column (ffill demo) ''A'') 10 < 252 \<and>
   snd (rows (momentum (ffill demo)) ! 10) ''A'' = NaN \<and>
   253 < length (rows demo) \<and>
   252 \<le> obs_count (column (ffill demo) ''A'') 253 \<and>
   is_finite (snd (rows (momentum (ffill demo)) ! 253) ''A'')"
proof -
  have h1: "10 < length (rows demo)" "253 < length (rows demo)" by (simp_all add: demo_length)
  have h2: "obs_count (column (ffill demo) ''A'') 10 < 252"
    by (simp add: ffill_demo demo_obs)
  have h3: "252 \<le> obs_count (column (ffill demo) ''A'') 253"
    by (simp add: ffill_demo demo_obs)
  have h4: "list_all not_infinite (column (ffill demo) ''A'')"
    by (simp add: ffill_demo demo_not_infinite)
  have h5: "is_finite (column (ffill demo) ''A'' ! 253 / column (ffill demo) ''A'' ! (253 - 20))"
    "is_finite (column (ffill demo) ''A'' ! 253 / column (ffill demo) ''A'' ! (253 - 62))"
    "is_finite (column (ffill demo) ''A'' ! 253 / column (ffill demo) ''A'' ! (253 - 125))"
    "is_finite (column (ffill demo) ''A'' ! 253 / column (ffill demo) ''A'' ! (253 - 251))"
    by (simp_all add: ffill_demo demo_col_nth demo_price_def is_finite_def)
  have c1: "snd (rows (momentum (ffill demo)) ! 10) ''A'' = NaN"
    using momentum_undefined_or_finite[OF h1(1), of "''A''"] h2 by blast
  have c2: "is_finite (snd (rows (momentum (ffill demo)) ! 253) ''A'')"
    using momentum_undefined_or_finite[OF h1(2), of "''A''"] h3 h4 h5 by blast
  show ?thesis using h1 h2 h3 c1 c2 by blast
qed

lemma demo_first_scored: "first_scored_date (momentum demo) = Some (2017, 2, 28)"
proof -
  let ?P = "\<lambda>r. list_ex (\<lambda>a. \<not> isnull (snd r a)) (columns (momentum demo))"
  have "find ?P (rows (momentum demo)) = Some (rows (momentum demo) ! 251)"
    unfolding find_Some_iff
  proof (intro exI[of _ 251] conjI allI impI)
    show "251 < length (rows (momentum demo))" by (simp add: length_rows_momentum demo_length)
    show "?P (rows (momentum demo) ! 251)"
      by (simp add: columns_momentum demo_columns demo_momentum_nth demo_score_251 isnull_def)
    show "rows (momentum demo) ! 251 = rows (momentum demo) ! 251" by simp
    fix j :: nat assume "j < 251"
    then show "\<not> ?P (rows (momentum demo) ! j)"
      by (simp add: columns_momentum demo_columns demo_momentum_nth demo_cell_early isnull_def)
  qed
  then show ?thesis
    by (simp add: first_scored_date_def demo_momentum_nth demo_date_def)
qed

text \<open>
  C3 as stated fails: 2017-02-28 is a month-end of the price calendar and the first date
  with a score, so it is not strictly before the momentum start date, and it is excluded.
\<close>

theorem start_date_itself_excluded_counterexample:
  "(2017, 2, 28) \<in> set (month_ends (ffill demo)) \<and>
   (2017, 2, 28) \<in> set (index (ffill demo)) \<and>
   first_scored_date (momentum (ffill demo)) = Some (2017, 2, 28) \<and>
   (2017, 2, 28) \<notin> set (rebalancing_dates (ffill demo) (momentum (ffill demo))) \<and>
   \<not> ((2017, 2, 28) \<notin> set (rebalancing_dates (ffill demo) (momentum (ffill demo))) \<longleftrightarrow>
        (\<exists>s. first_scored_date (momentum (ffill demo)) = Some s \<and> (2017, 2, 28) < s))"
proof -
  have "demo_date 251 \<in> set (index demo)"
    unfolding demo_index by (rule imageI[of 251 "set [0..<255]" demo_date, simplified set_map[symmetric]]) simp
  moreover have "demo_date 251 = (2017, 2, 28)" by (simp add: demo_date_def)
  ultimately have "(2017, 2, 28) \<in> set (index demo)" by (simp only:)
  then show ?thesis
    by (simp add: ffill_demo demo_month_ends demo_first_scored demo_rebalancing_dates)
qed

text \<open>
  C3 amended, on the 255-row table.
\<close>

theorem month_end_excluded_iff_witness:
  "(2017, 2, 28) \<in> set (month_ends (ffill demo)) \<and>
   momentum_start_date (momentum (ffill demo)) = Some (2017, 2, 28) \<and>
   (2017, 2, 28) \<notin> set (rebalancing_dates (ffill demo) (momentum (ffill demo))) \<and>
   (2017, 3, 31) \<in> set (month_ends (ffill demo)) \<and>
   (2017, 3, 31) \<in> set (rebalancing_dates (ffill demo) (momentum (ffill demo))) \<and>
   (\<exists>i<length (rows (momentum (ffill demo))).
       fst (rows (momentum (ffill demo)) ! i) = (2017, 2, 28) \<and>
       fully_defined (momentum (ffill demo)) (rows (momentum (ffill demo)) ! i))"
proof -
  have h1: "(2017, 2, 28) \<in> set (month_ends (ffill demo))"
    and h2: "(2017, 3, 31) \<in> set (month_ends (ffill demo))"
    by (simp_all add: ffill_demo demo_month_ends)
  have h3: "momentum_start_date (momentum (ffill demo)) = Some (2017, 2, 28)"
    by (simp add: ffill_demo demo_start)
  have c1: "(2017, 2, 28) \<notin> set (rebalancing_dates (ffill demo) (momentum (ffill demo)))"
    using month_end_excluded_iff[of "(2017, 2, 28)" "ffill demo" "momentum (ffill demo)" "(2017, 2, 28)"]
      h1 h3 by simp
  have c2: "(2017, 3, 31) \<in> set (rebalancing_dates (ffill demo) (momentum (ffill demo)))"
    using month_end_excluded_iff[of "(2017, 3, 31)" "ffill demo" "momentum (ffill demo)" "(2017, 2, 28)"]
      h2 h3 by simp
  have c3: "\<exists>i<length (rows (momentum (ffill demo))).
       fst (rows (momentum (ffill demo)) ! i) = (2017, 2, 28) \<and>
       fully_defined (momentum (ffill demo)) (rows (momentum (ffill demo)) ! i)"
    using month_end_excluded_iff[of "(2017, 2, 28)" "ffill demo" "momentum (ffill demo)" "(2017, 2, 28)"]
      h3 by blast
  show ?thesis using h1 h2 h3 c1 c2 c3 by blast
qed

text \<open>
  C5 at a failing input: on the 255-row table the rebalance sequence contains 2017-04-30,
  which is no date of the price table (its last April row is 2017-04-03).
\<close>

theorem month_end_label_not_trading_date:
  "(2017, 4, 30) \<in> set (rebalancing_dates (ffill demo) (momentum (ffill demo))) \<and>
   (2017, 4, 30) \<notin> set (index (ffill demo))"
  by (simp add: ffill_demo demo_rebalancing_dates demo_april_absent)

text \<open>
  C8 as stated fails: on the 255-row table the script reaches the end of the loop after one
  successful rebalance; the history of that state has one entry and the reported MTD
  return is 10, not zero.
\<close>

theorem single_entry_mtd_counterexample:
  "run demo 1 100000 =
     Inr \<lparr>portfolio_value = Fin 110000, portfolio_values = [Fin 100000, Fin 110000],
          portfolio_dates = [(2017, 3, 31)], current_portfolio = Some [''A'']\<rparr> \<and>
   history \<lparr>portfolio_value = Fin 110000, portfolio_values = [Fin 100000, Fin 110000],
            portfolio_dates = [(2017, 3, 31)], current_portfolio = Some [''A'']\<rparr>
     = [((2017, 3, 31), Fin 110000)] \<and>
   length (history \<lparr>portfolio_value = Fin 110000, portfolio_values = [Fin 100000, Fin 110000],
            portfolio_dates = [(2017, 3, 31)], current_portfolio = Some [''A'']\<rparr>) < 2 \<and>
   portfolio_mtd_return [Fin 100000, Fin 110000] = Fin 10 \<and>
   portfolio_mtd_return [Fin 100000, Fin 110000] \<noteq> Fin 0"
  unfolding demo_run by (simp add: history_def portfolio_mtd_return_def fl_simps)

section \<open>Short tables\<close>

lemma short_history_all_undefined:
  assumes "length (rows fr) \<le> 251"
  shows "all_undefined (momentum fr)"
proof -
  have "rolling_apply_at 252 calculate_momentum (column fr a) i = NaN" if "i < length (rows fr)" for i a
    by (rule rolling_too_few) (use that assms obs_count_le[of "column fr a" i] in simp)
  then show ?thesis
    by (simp add: all_undefined_def momentum_def list_all_iff isnull_def)
qed

lemma index_ffill_rows: "map fst (ffill_rows prev rs) = map fst rs"
  by (induction rs arbitrary: prev) (simp_all add: Let_def)

lemma index_ffill: "index (ffill fr) = index fr"
  by (simp add: index_def ffill_def index_ffill_rows)

lemma month_ends_index:
  "month_ends fr =
     (case index fr of [] \<Rightarrow> []
      | d # ds \<Rightarrow> map month_end_of [month_ord d ..< Suc (month_ord (last (d # ds)))])"
proof (cases "rows fr")
  case Nil
  then show ?thesis by (simp add: month_ends_def index_def)
next
  case (Cons r rs)
  have "fst (last (r # rs)) = last (map fst (r # rs))"
    by (simp add: last_map)
  then show ?thesis using Cons by (simp add: month_ends_def index_def)
qed

lemma month_ends_ffill: "month_ends (ffill fr) = month_ends fr"
  by (simp add: month_ends_index index_ffill)

lemma ex_data_undefined: "all_undefined (momentum (ffill ex_data))"
  by (rule short_history_all_undefined) (simp add: ffill_def length_ffill_rows ex_data_def)

lemma ex_data_month_ends: "month_ends ex_data = [(2017, 3, 31), (2017, 4, 30), (2017, 5, 31)]"
proof -
  have u: "[24206..<24209] = [24206, 24207, 24208::nat]" by (simp add: upt_rec)
  show ?thesis
    by (simp add: month_ends_def ex_data_def month_ord_def u month_end_of_def days_in_month_def)
qed

lemma ex_data_dates_unfiltered:
  "rebalancing_dates (ffill ex_data) (momentum (ffill ex_data)) =
     [(2017, 3, 31), (2017, 4, 30), (2017, 5, 31)]"
  by (simp add: ex_data_undefined rebalancing_dates_def all_undefined_start month_ends_ffill
      ex_data_month_ends)

text \<open>
  C4 at a failing input: on the five-row example table no asset has a score on any date,
  line 90 raises IndexError, and the script ends there: it produces no rebalance sequence
  and no terminal state.
\<close>

theorem undefined_momentum_raises_index_error:
  "all_undefined (momentum (ffill ex_data)) \<and>
   initial_momentum_values (momentum (ffill ex_data)) = Inl IndexError \<and>
   run ex_data 1 1000 = Inl IndexError"
proof -
  have c: "columns (momentum (ffill ex_data)) \<noteq> []"
    by (simp add: columns_momentum ffill_def ex_data_def)
  have r: "initial_momentum_values (momentum (ffill ex_data)) = Inl IndexError"
    by (rule all_undefined_raises[OF ex_data_undefined c])
  have "run ex_data 1 1000 = Inl IndexError"
    by (simp only: run_def Let_def r sum.case)
  with r ex_data_undefined show ?thesis by blast
qed

lemma ex_backtest:
  "backtest ex_data ex_mom 1 1000 [(2017, 3, 31), (2017, 4, 28), (2017, 5, 31)] =
     \<lparr>portfolio_value = Fin 1210, portfolio_values = [Fin 1000, Fin 1100, Fin 1210],
      portfolio_dates = [(2017, 3, 31), (2017, 4, 28)], current_portfolio = Some [''A'']\<rparr>"
  by (simp add: ex_mom_def ex_data_def fl_simps frame_simps sim_simps)

lemma ex_backtest_one:
  "backtest ex_data ex_mom 1 1000 [(2017, 3, 31)] =
     \<lparr>portfolio_value = Fin 1100, portfolio_values = [Fin 1000, Fin 1100],
      portfolio_dates = [(2017, 3, 31)], current_portfolio = Some [''A'']\<rparr>"
  by (simp add: ex_mom_def ex_data_def fl_simps frame_simps sim_simps)

text \<open>
  C8 amended, on the example tables.
\<close>

theorem mtd_return_percent_witness:
  "history (backtest ex_data ex_mom 1 1000 []) = [] \<and>
   portfolio_mtd_return (portfolio_values (backtest ex_data ex_mom 1 1000 [])) = Fin 0 \<and>
   history (backtest ex_data ex_mom 1 1000 [(2017, 3, 31)]) = [((2017, 3, 31), Fin 1100)] \<and>
   portfolio_mtd_return (portfolio_values (backtest ex_data ex_mom 1 1000 [(2017, 3, 31)])) = Fin 10 \<and>
   2 \<le> length (history (backtest ex_data ex_mom 1 1000 [(2017, 3, 31), (2017, 4, 28), (2017, 5, 31)])) \<and>
   portfolio_mtd_return
     (portfolio_values (backtest ex_data ex_mom 1 1000 [(2017, 3, 31), (2017, 4, 28), (2017, 5, 31)])) = Fin 10"
proof -
  have h0: "history (backtest ex_data ex_mom 1 1000 []) = []"
    by (simp add: backtest_def init_state_def history_def)
  have h1: "history (backtest ex_data ex_mom 1 1000 [(2017, 3, 31)]) = [((2017, 3, 31), Fin 1100)]"
    unfolding ex_backtest_one by (simp add: history_def)
  have h2: "history (backtest ex_data ex_mom 1 1000 [(2017, 3, 31), (2017, 4, 28), (2017, 5, 31)]) =
      [((2017, 3, 31), Fin 1100), ((2017, 4, 28), Fin 1210)]"
    unfolding ex_backtest by (simp add: history_def)
  have c0: "portfolio_mtd_return (portfolio_values (backtest ex_data ex_mom 1 1000 [])) = Fin 0"
    using mtd_return_percent[of ex_data ex_mom 1 1000 "[]"] h0 by blast
  have c1: "portfolio_mtd_return (portfolio_values (backtest ex_data ex_mom 1 1000 [(2017, 3, 31)])) = Fin 10"
    using mtd_return_percent[of ex_data ex_mom 1 1000 "[(2017, 3, 31)]" "(2017, 3, 31)" "Fin 1100"] h1
    by (simp add: fl_simps)
  have c2: "portfolio_mtd_return
     (portfolio_values (backtest ex_data ex_mom 1 1000 [(2017, 3, 31), (2017, 4, 28), (2017, 5, 31)])) = Fin 10"
    using mtd_return_percent[of ex_data ex_mom 1 1000 "[(2017, 3, 31), (2017, 4, 28), (2017, 5, 31)]"]
    unfolding h2 by (simp add: fl_simps)
  show ?thesis using h0 h1 c0 c1 c2 unfolding h2 by simp
qed

text \<open>
  C9, on the example tables.
\<close>

theorem backtest_deterministic_witness:
  "same_table ex_data ex_data_alt \<and> same_table ex_mom ex_mom \<and>
   set (columns ex_mom) \<subseteq> set (columns ex_data) \<and>
   history (backtest ex_data_alt ex_mom 1 1000 [(2017, 3, 31), (2017, 4, 28), (2017, 5, 31)]) =
     [((2017, 3, 31), Fin 1100), ((2017, 4, 28), Fin 1210)] \<and>
   current_portfolio (backtest ex_data_alt ex_mom 1 1000 [(2017, 3, 31), (2017, 4, 28), (2017, 5, 31)]) =
     Some [''A'']"
proof -
  have h1: "same_table ex_data ex_data_alt"
    by (simp add: same_table_def same_rows_def ex_data_def ex_data_alt_def)
  have h2: "same_table ex_mom ex_mom" by (rule same_table_refl)
  have h3: "set (columns ex_mom) \<subseteq> set (columns ex_data)"
    by (simp add: ex_mom_def ex_data_def)
  from backtest_deterministic[OF h1 h2 h3 refl refl refl,
      where ds = "[(2017, 3, 31), (2017, 4, 28), (2017, 5, 31)]" and top_n = 1 and c = 1000]
  have "backtest ex_data_alt ex_mom 1 1000 [(2017, 3, 31), (2017, 4, 28), (2017, 5, 31)] =
        backtest ex_data ex_mom 1 1000 [(2017, 3, 31), (2017, 4, 28), (2017, 5, 31)]"
    by simp
  then show ?thesis using h1 h2 h3 unfolding ex_backtest by (simp add: history_def)
qed

text \<open>
  C10, on the example tables.
\<close>

theorem value_stays_positive_witness:
  "positive_prices ex_data \<and> set (columns ex_mom) \<subseteq> set (columns ex_data) \<and> (0::real) < 1000 \<and>
   pos_fl (portfolio_value (backtest ex_data ex_mom 1 1000 [(2017, 3, 31), (2017, 4, 28), (2017, 5, 31)])) \<and>
   list_all pos_fl (portfolio_values (backtest ex_data ex_mom 1 1000 [(2017, 3, 31), (2017, 4, 28), (2017, 5, 31)]))"
proof -
  have h1: "positive_prices ex_data"
    by (simp add: positive_prices_def ex_data_def pos_fl_def isnull_def)
  have h2: "set (columns ex_mom) \<subseteq> set (columns ex_data)"
    by (simp add: ex_mom_def ex_data_def)
  have h3: "(0::real) < 1000" by simp
  from value_stays_positive[OF h1 h2 h3, of 1 "[(2017, 3, 31), (2017, 4, 28), (2017, 5, 31)]"] h1 h2
  show ?thesis by simp
qed

section \<open>Ascending dates\<close>

lemma month_end_of_mono:
  assumes "k < k'"
  shows "month_end_of k < month_end_of k'"
proof -
  have le: "k div 12 \<le> k' div 12" using assms by (simp add: div_le_mono)
  show ?thesis
  proof (cases "k div 12 = k' div 12")
    case True
    have "k = 12 * (k div 12) + k mod 12" "k' = 12 * (k' div 12) + k' mod 12"
      by (simp_all only: mult_div_mod_eq)
    then have "12 * (k div 12) + k mod 12 < 12 * (k div 12) + k' mod 12"
      using assms True by (metis)
    then have "k mod 12 < k' mod 12" by (simp only: add_less_cancel_left)
    then show ?thesis using True by (simp add: month_end_of_def)
  next
    case False
    then have "k div 12 < k' div 12" using le by simp
    then show ?thesis by (simp add: month_end_of_def)
  qed
qed

lemma month_ends_ascending: "sorted_wrt (<) (month_ends data)"
proof -
  have "sorted_wrt (\<lambda>x y. month_end_of x < month_end_of y) [a..<b]" for a b
    by (rule sorted_wrt_mono_rel[of _ "(<)"]) (simp_all add: month_end_of_mono)
  then have "sorted_wrt (<) (map month_end_of [a..<b])" for a b
    by (simp only: sorted_wrt_map)
  then show ?thesis
    unfolding month_ends_def by (cases "rows data") (simp_all only: list.case sorted_wrt.simps)
qed

lemma rebalancing_dates_ascending: "sorted_wrt (<) (rebalancing_dates data mom)"
  using month_ends_ascending[of data]
  by (cases "momentum_start_date mom") (simp_all add: rebalancing_dates_def sorted_wrt_filter)

end
